theory Spec2Isabelle
  imports Main
begin

section \<open>Go path helpers (packages path and path/filepath, Unix)\<close>

text \<open>
  The adapter in \<^verbatim>\<open>backend/os/file.go\<close> builds every path with
  \<^verbatim>\<open>filepath.Join\<close>, \<^verbatim>\<open>path.Join\<close>, \<^verbatim>\<open>filepath.Base\<close>,
  \<^verbatim>\<open>filepath.Dir\<close> and \<^verbatim>\<open>filepath.Abs\<close>. They are lexical functions of the Go
  standard library; on Unix the separator is the slash and there is no volume name.
  Strings are byte lists.
\<close>

definition sep :: char where
  "sep = CHR ''/''"

text \<open>\<^verbatim>\<open>strings.Split(p, "/")\<close>: the fields between separators, empty ones included.\<close>

fun split_sep :: "string \<Rightarrow> string list" where
  "split_sep [] = [[]]"
| "split_sep (c # cs) =
     (if c = sep then [] # split_sep cs
      else (case split_sep cs of [] \<Rightarrow> [[c]] | w # ws \<Rightarrow> (c # w) # ws))"

text \<open>\<^verbatim>\<open>strings.Join(cs, "/")\<close>.\<close>

fun join_sep :: "string list \<Rightarrow> string" where
  "join_sep [] = []"
| "join_sep [c] = c"
| "join_sep (c # d # cs) = c @ sep # join_sep (d # cs)"

text \<open>
  One step of \<^verbatim>\<open>Clean\<close> on the next path element, \<open>st\<close> being the elements kept so
  far: an empty element and \<^verbatim>\<open>.\<close> are dropped; \<^verbatim>\<open>..\<close> removes the last kept element
  when there is one that is not itself \<^verbatim>\<open>..\<close>, is dropped at the root of a rooted path
  and is kept at the start of a relative one; any other element is kept.
\<close>

definition clean_step :: "bool \<Rightarrow> string list \<Rightarrow> string \<Rightarrow> string list" where
  "clean_step rooted st c =
     (if c = [] \<or> c = ''.'' then st
      else if c = ''..'' then
        (if st \<noteq> [] \<and> last st \<noteq> ''..'' then butlast st
         else if rooted then st
         else st @ [''..''])
      else st @ [c])"

definition IsAbs :: "string \<Rightarrow> bool" where
  "IsAbs p = (case p of [] \<Rightarrow> False | c # _ \<Rightarrow> c = sep)"

text \<open>\<^verbatim>\<open>Clean\<close>: the shortest path equivalent to \<open>p\<close> by lexical processing alone.\<close>

definition Clean :: "string \<Rightarrow> string" where
  "Clean p =
     (if p = [] then ''.''
      else
        (let st = foldl (clean_step (IsAbs p)) [] (split_sep p)
         in if IsAbs p then sep # join_sep st
            else if st = [] then ''.''
            else join_sep st))"

text \<open>
  \<^verbatim>\<open>Join(a, b)\<close> for two elements: empty elements are ignored, the rest is joined with a
  separator and cleaned; all elements empty gives the empty string.
\<close>

definition Join :: "string \<Rightarrow> string \<Rightarrow> string" where
  "Join a b =
     (if a \<noteq> [] then Clean (a @ sep # b)
      else if b \<noteq> [] then Clean b
      else [])"

text \<open>
  \<^verbatim>\<open>filepath.Base\<close>: the last element of the path, trailing separators removed first;
  \<^verbatim>\<open>.\<close> for the empty path and a single separator for a path of separators only.
\<close>

definition Base :: "string \<Rightarrow> string" where
  "Base p =
     (if p = [] then ''.''
      else
        (let q = rev (dropWhile (\<lambda>c. c = sep) (rev p));
             r = rev (takeWhile (\<lambda>c. c \<noteq> sep) (rev q))
         in if r = [] then [sep] else r))"

text \<open>\<^verbatim>\<open>filepath.Dir\<close>: everything up to and including the last separator, cleaned.\<close>

definition Dir :: "string \<Rightarrow> string" where
  "Dir p = Clean (rev (dropWhile (\<lambda>c. c \<noteq> sep) (rev p)))"

text \<open>
  \<^verbatim>\<open>filepath.Abs\<close> once the working directory is known: an absolute path is cleaned,
  a relative one is joined to the working directory.
\<close>

definition abs_in :: "string \<Rightarrow> string \<Rightarrow> string" where
  "abs_in wd p = (if IsAbs p then Clean p else Join wd p)"

text \<open>
  Modelled from the spec: \<^verbatim>\<open>utils.AddTrailingSlash\<close> is one of the path helpers the
  spec treats as an external collaborator ("ensure leading/trailing slashes"); its source
  is not part of the files at hand. It appends a separator unless the path already ends
  in one.
\<close>

definition AddTrailingSlash :: "string \<Rightarrow> string" where
  "AddTrailingSlash p = (if p \<noteq> [] \<and> last p = sep then p else p @ [sep])"


section \<open>The operating system as the adapter sees it\<close>

text \<open>
  The adapter calls \<^verbatim>\<open>os.Stat\<close>, \<^verbatim>\<open>os.Remove\<close>, \<^verbatim>\<open>os.MkdirAll\<close>,
  \<^verbatim>\<open>os.OpenFile\<close> and the methods of \<^verbatim>\<open>*os.File\<close>. The world below is what these
  calls can observe and change: the regular files with their contents, the directories
  (with the size the file system reports for each), the working directory, and a log of
  the calls made. A path that leads through a regular file is refused with ENOTDIR. Failures that the model does not
  derive from its own state (permissions, a directory that is not empty, I/O errors) are
  decided by \<open>fault\<close>, which the environment fixes per call and resolved path.
\<close>

datatype errno = ENOENT | ENOTDIR | EISDIR | EACCES | EINVAL | EIO | ENOSPC | ENOTEMPTY | ESTALE

datatype syscall =
    SysStat | SysRemove | SysMkdirAll | SysOpenFile | SysGetwd
  | SysClose | SysRead | SysWrite | SysSeek

datatype error =
    PathError syscall string errno
  | ErrClosed string
  | ErrInvalid
  | EOF
  | ErrShortWrite
  | ReadNotExist string
  | InvalidArgument string

datatype event =
    EvStat string
  | EvRemove string
  | EvMkdirAll string
  | EvOpenFile string
  | EvClose string
  | EvRead string nat
  | EvWrite string string
  | EvSeek string

record FileInfo =
  st_size :: nat
  st_isdir :: bool

text \<open>An \<^verbatim>\<open>*os.File\<close>: the file it is bound to, its offset, and whether it is still open.\<close>

record os_File =
  h_path :: string
  h_pos :: nat
  h_open :: bool

record world =
  files :: "string \<rightharpoonup> string"
  dirs :: "string set"
  cwd :: string
  dir_size :: "string \<Rightarrow> nat"
  fault :: "syscall \<Rightarrow> string \<Rightarrow> errno option"
  trace :: "event list"

definition log_call :: "event \<Rightarrow> world \<Rightarrow> world" where
  "log_call e w = w\<lparr>trace := trace w @ [e]\<rparr>"

text \<open>The kernel resolves a relative path against the working directory.\<close>

definition resolve :: "world \<Rightarrow> string \<Rightarrow> string" where
  "resolve w p = abs_in (cwd w) p"

text \<open>\<^verbatim>\<open>os.IsNotExist\<close>: the error is a path error whose cause is ENOENT.\<close>

fun IsNotExist :: "error \<Rightarrow> bool" where
  "IsNotExist (PathError _ _ ENOENT) = True"
| "IsNotExist _ = False"

text \<open>The directories on the way to a cleaned absolute path, the root first.\<close>

fun inits :: "'a list \<Rightarrow> 'a list list" where
  "inits [] = [[]]"
| "inits (x # xs) = [] # map ((#) x) (inits xs)"

definition dirs_upto :: "string \<Rightarrow> string list" where
  "dirs_upto rp =
     map (\<lambda>cs. sep # join_sep cs) (inits (filter (\<lambda>c. c \<noteq> []) (split_sep rp)))"

text \<open>
  The resolved path leads through a regular file: one of the directories on the way to
  it, the path itself left out, is a regular file.
\<close>

definition below_file :: "world \<Rightarrow> string \<Rightarrow> bool" where
  "below_file w rp = list_ex (\<lambda>d. files w d \<noteq> None) (butlast (dirs_upto rp))"

definition os_Stat :: "string \<Rightarrow> world \<Rightarrow> (error + FileInfo) \<times> world" where
  "os_Stat p w =
     (let w1 = log_call (EvStat p) w; rp = resolve w p
      in case fault w SysStat rp of
           Some e \<Rightarrow> (Inl (PathError SysStat p e), w1)
         | None \<Rightarrow>
             if below_file w rp then (Inl (PathError SysStat p ENOTDIR), w1)
             else
               (case files w rp of
                  Some c \<Rightarrow> (Inr \<lparr>st_size = length c, st_isdir = False\<rparr>, w1)
                | None \<Rightarrow>
                    if rp \<in> dirs w
                    then (Inr \<lparr>st_size = dir_size w rp, st_isdir = True\<rparr>, w1)
                    else (Inl (PathError SysStat p ENOENT), w1)))"

definition os_Remove :: "string \<Rightarrow> world \<Rightarrow> error option \<times> world" where
  "os_Remove p w =
     (let w1 = log_call (EvRemove p) w; rp = resolve w p
      in case fault w SysRemove rp of
           Some e \<Rightarrow> (Some (PathError SysRemove p e), w1)
         | None \<Rightarrow>
             if below_file w rp then (Some (PathError SysRemove p ENOTDIR), w1)
             else if files w rp \<noteq> None then (None, w1\<lparr>files := (files w)(rp := None)\<rparr>)
             else if rp \<in> dirs w then (None, w1\<lparr>dirs := dirs w - {rp}\<rparr>)
             else (Some (PathError SysRemove p ENOENT), w1))"

definition os_MkdirAll :: "string \<Rightarrow> world \<Rightarrow> error option \<times> world" where
  "os_MkdirAll p w =
     (let w1 = log_call (EvMkdirAll p) w; rp = resolve w p
      in case fault w SysMkdirAll rp of
           Some e \<Rightarrow> (Some (PathError SysMkdirAll p e), w1)
         | None \<Rightarrow>
             if list_ex (\<lambda>d. files w d \<noteq> None) (dirs_upto rp)
             then (Some (PathError SysMkdirAll p ENOTDIR), w1)
             else (None, w1\<lparr>dirs := dirs w \<union> set (dirs_upto rp)\<rparr>))"

text \<open>
  \<^verbatim>\<open>os.OpenFile(p, O_RDWR|O_CREATE, 0666)\<close>: the file is created empty when it is
  missing and its directory exists; an existing file is opened as it is (there is no
  \<^verbatim>\<open>O_TRUNC\<close>); the offset starts at 0.
\<close>

definition os_OpenFile :: "string \<Rightarrow> world \<Rightarrow> os_File option \<times> error option \<times> world" where
  "os_OpenFile p w =
     (let w1 = log_call (EvOpenFile p) w; rp = resolve w p;
          h = \<lparr>h_path = rp, h_pos = 0, h_open = True\<rparr>
      in case fault w SysOpenFile rp of
           Some e \<Rightarrow> (None, Some (PathError SysOpenFile p e), w1)
         | None \<Rightarrow>
             if below_file w rp then (None, Some (PathError SysOpenFile p ENOTDIR), w1)
             else if rp \<in> dirs w then (None, Some (PathError SysOpenFile p EISDIR), w1)
             else if files w rp \<noteq> None then (Some h, None, w1)
             else if Dir rp \<in> dirs w then (Some h, None, w1\<lparr>files := (files w)(rp \<mapsto> [])\<rparr>)
             else (None, Some (PathError SysOpenFile p ENOENT), w1))"

text \<open>
  \<^verbatim>\<open>(*os.File).Close\<close>: the descriptor is released whether or not the call reports an
  error; closing a closed file reports \<^verbatim>\<open>ErrClosed\<close>.
\<close>

definition file_Close :: "os_File \<Rightarrow> world \<Rightarrow> error option \<times> os_File \<times> world" where
  "file_Close h w =
     (let w1 = log_call (EvClose (h_path h)) w
      in if \<not> h_open h then (Some (ErrClosed (h_path h)), h, w1)
         else case fault w SysClose (h_path h) of
                Some e \<Rightarrow> (Some (PathError SysClose (h_path h) e), h\<lparr>h_open := False\<rparr>, w1)
              | None \<Rightarrow> (None, h\<lparr>h_open := False\<rparr>, w1))"

text \<open>
  \<^verbatim>\<open>(*os.File).Read\<close> into a buffer of \<open>n\<close> bytes: the bytes from the offset on, at
  most \<open>n\<close>; \<^verbatim>\<open>io.EOF\<close> when the buffer is not empty and nothing is left. The model
  identifies an open file with its path: I/O on a file that has been unlinked since it
  was opened reports ESTALE.
\<close>

definition file_Read :: "os_File \<Rightarrow> nat \<Rightarrow> world \<Rightarrow> string \<times> error option \<times> os_File \<times> world" where
  "file_Read h n w =
     (let w1 = log_call (EvRead (h_path h) n) w
      in if \<not> h_open h then ([], Some (ErrClosed (h_path h)), h, w1)
         else case fault w SysRead (h_path h) of
                Some e \<Rightarrow> ([], Some (PathError SysRead (h_path h) e), h, w1)
              | None \<Rightarrow>
                  (case files w (h_path h) of
                     None \<Rightarrow> ([], Some (PathError SysRead (h_path h) ESTALE), h, w1)
                   | Some c \<Rightarrow>
                       if n = 0 then ([], None, h, w1)
                       else if length c \<le> h_pos h then ([], Some EOF, h, w1)
                       else
                         (let data = take n (drop (h_pos h) c)
                          in (data, None, h\<lparr>h_pos := h_pos h + length data\<rparr>, w1))))"

text \<open>Writing \<open>b\<close> at offset \<open>pos\<close>: a gap past the end of the file is filled with zero bytes.\<close>

definition overwrite :: "string \<Rightarrow> nat \<Rightarrow> string \<Rightarrow> string" where
  "overwrite c pos b =
     take pos (c @ replicate (pos - length c) (CHR 0x00)) @ b @ drop (pos + length b) c"

definition file_Write :: "os_File \<Rightarrow> string \<Rightarrow> world \<Rightarrow> nat \<times> error option \<times> os_File \<times> world" where
  "file_Write h b w =
     (let w1 = log_call (EvWrite (h_path h) b) w
      in if \<not> h_open h then (0, Some (ErrClosed (h_path h)), h, w1)
         else case fault w SysWrite (h_path h) of
                Some e \<Rightarrow> (0, Some (PathError SysWrite (h_path h) e), h, w1)
              | None \<Rightarrow>
                  (case files w (h_path h) of
                     None \<Rightarrow> (0, Some (PathError SysWrite (h_path h) ESTALE), h, w1)
                   | Some c \<Rightarrow>
                       (length b, None, h\<lparr>h_pos := h_pos h + length b\<rparr>,
                        w1\<lparr>files := (files w)(h_path h \<mapsto> overwrite c (h_pos h) b)\<rparr>)))"

text \<open>
  \<^verbatim>\<open>(*os.File).Seek(offset, whence)\<close> with an \<^verbatim>\<open>int64\<close> offset: whence 0, 1, 2 is
  relative to the start, the offset, the end; a result outside \<open>[0, 2^63)\<close> reports
  EINVAL. Only these three values of whence are modelled; any other is reported as
  EINVAL here.
\<close>

definition file_Seek :: "os_File \<Rightarrow> int \<Rightarrow> int \<Rightarrow> world \<Rightarrow> int \<times> error option \<times> os_File \<times> world" where
  "file_Seek h offset whence w =
     (let w1 = log_call (EvSeek (h_path h)) w
      in if \<not> h_open h then (0, Some (ErrClosed (h_path h)), h, w1)
         else case fault w SysSeek (h_path h) of
                Some e \<Rightarrow> (0, Some (PathError SysSeek (h_path h) e), h, w1)
              | None \<Rightarrow>
                  (case files w (h_path h) of
                     None \<Rightarrow> (0, Some (PathError SysSeek (h_path h) ESTALE), h, w1)
                   | Some c \<Rightarrow>
                       if whence \<noteq> 0 \<and> whence \<noteq> 1 \<and> whence \<noteq> 2
                       then (0, Some (PathError SysSeek (h_path h) EINVAL), h, w1)
                       else
                         (let base = (if whence = 0 then 0
                                      else if whence = 1 then int (h_pos h)
                                      else int (length c));
                              new = base + offset
                          in if new < 0 \<or> 2 ^ 63 \<le> new
                             then (0, Some (PathError SysSeek (h_path h) EINVAL), h, w1)
                             else (new, None, h\<lparr>h_pos := nat new\<rparr>, w1))))"

text \<open>
  \<^verbatim>\<open>filepath.Abs\<close>: only a relative path needs the working directory, and only then
  can the call fail.
\<close>

definition filepath_Abs :: "world \<Rightarrow> string \<Rightarrow> error + string" where
  "filepath_Abs w p =
     (if IsAbs p then Inr (Clean p)
      else case fault w SysGetwd [] of
             Some e \<Rightarrow> Inl (PathError SysGetwd [] e)
           | None \<Rightarrow> Inr (Join (cwd w) p))"


section \<open>The local-disk File of \<^verbatim>\<open>backend/os/file.go\<close>\<close>

text \<open>
  A \<^verbatim>\<open>vfs.Location\<close> is an interface; the adapter only asks it for its volume and its
  path (and for its file system, to create the destination of a copy). The record holds
  what \<^verbatim>\<open>Volume()\<close> and \<^verbatim>\<open>Path()\<close> return.
\<close>

record Location =
  loc_volume :: string
  loc_path :: string

text \<open>
  \<^verbatim>\<open>type File struct { file *os.File; name string; location vfs.Location }\<close>.
  The \<^verbatim>\<open>*os.File\<close> is owned by this File alone, so its state is kept inside the
  record (field \<open>file_ptr\<close>, as \<open>file\<close> is a reserved word); \<open>None\<close> is the nil
  pointer.
\<close>

record File =
  file_ptr :: "os_File option"
  name :: string
  location :: Location

text \<open>
  \<^verbatim>\<open>newFile\<close>: base name, absolute path, its directory with a trailing slash. The
  location is the \<^verbatim>\<open>Location{fileSystem: &FileSystem{}, name: fullPath}\<close> of the source,
  whose path is that name and whose volume is empty.
\<close>

definition newFile :: "world \<Rightarrow> string \<Rightarrow> error + File" where
  "newFile w nm =
     (let fileName = Base nm
      in case filepath_Abs w nm of
           Inl err \<Rightarrow> Inl err
         | Inr fullPath \<Rightarrow>
             Inr \<lparr>file_ptr = None, name = fileName,
                  location = \<lparr>loc_volume = [], loc_path = AddTrailingSlash (Dir fullPath)\<rparr>\<rparr>)"

definition Name :: "File \<Rightarrow> string" where
  "Name f = name f"

definition Path :: "File \<Rightarrow> string" where
  "Path f = Join (loc_path (location f)) (name f)"

text \<open>
  Modelled from the spec: \<^verbatim>\<open>utils.GetFileURI\<close> is not part of the files at hand; the
  spec gives the canonical form \<^verbatim>\<open>scheme://volume/path\<close>, the scheme of the local disk
  being \<^verbatim>\<open>file\<close>. It is used for the text of an error only.
\<close>

definition URI :: "File \<Rightarrow> string" where
  "URI f = ''file://'' @ loc_volume (location f) @ Path f"

definition Delete :: "File \<Rightarrow> world \<Rightarrow> error option \<times> File \<times> world" where
  "Delete f w =
     (case os_Remove (Path f) w of
        (None, w1) \<Rightarrow> (None, f\<lparr>file_ptr := None\<rparr>, w1)
      | (Some err, w1) \<Rightarrow> (Some err, f, w1))"

text \<open>
  \<^verbatim>\<open>Size\<close>: the length from \<^verbatim>\<open>os.Stat\<close>, a natural number (the source converts
  the non-negative \<^verbatim>\<open>int64\<close> to \<^verbatim>\<open>uint64\<close>). \<^verbatim>\<open>LastModified\<close> reads the same
  probe; the world keeps no modification times, so it is left out.
\<close>

definition Size :: "File \<Rightarrow> world \<Rightarrow> nat \<times> error option \<times> world" where
  "Size f w =
     (case os_Stat (Path f) w of
        (Inl err, w1) \<Rightarrow> (0, Some err, w1)
      | (Inr stats, w1) \<Rightarrow> (st_size stats, None, w1))"

definition Close :: "File \<Rightarrow> world \<Rightarrow> error option \<times> File \<times> world" where
  "Close f w =
     (case file_ptr f of
        None \<Rightarrow> (None, f, w)
      | Some h \<Rightarrow>
          (case file_Close h w of
             (None, h1, w1) \<Rightarrow> (None, f\<lparr>file_ptr := None\<rparr>, w1)
           | (Some err, h1, w1) \<Rightarrow> (Some err, f\<lparr>file_ptr := Some h1\<rparr>, w1)))"

definition Exists :: "File \<Rightarrow> world \<Rightarrow> bool \<times> error option \<times> world" where
  "Exists f w =
     (case os_Stat (Path f) w of
        (Inl err, w1) \<Rightarrow>
          if IsNotExist err then (False, None, w1) else (False, Some err, w1)
      | (Inr _, w1) \<Rightarrow> (True, None, w1))"

text \<open>
  \<^verbatim>\<open>openFile\<close>: the handle already held, or the directory of the location made and the
  file opened with \<^verbatim>\<open>O_RDWR|O_CREATE\<close>. The result of \<^verbatim>\<open>os.OpenFile\<close> is stored in
  the File whether or not it is an error.
\<close>

definition openFile :: "File \<Rightarrow> world \<Rightarrow> os_File option \<times> error option \<times> File \<times> world" where
  "openFile f w =
     (case file_ptr f of
        Some h \<Rightarrow> (Some h, None, f, w)
      | None \<Rightarrow>
          (case os_MkdirAll (loc_path (location f)) w of
             (Some err, w1) \<Rightarrow> (None, Some err, f, w1)
           | (None, w1) \<Rightarrow>
               (case os_OpenFile (Path f) w1 of
                  (h, err, w2) \<Rightarrow> (h, err, f\<lparr>file_ptr := h\<rparr>, w2))))"

text \<open>
  \<^verbatim>\<open>Read\<close> into a buffer of \<open>n\<close> bytes; the bytes read stand for the count and the
  filled part of the buffer. A method called on a nil \<^verbatim>\<open>*os.File\<close> reports
  \<^verbatim>\<open>ErrInvalid\<close>.
\<close>

definition Read :: "File \<Rightarrow> nat \<Rightarrow> world \<Rightarrow> string \<times> error option \<times> File \<times> world" where
  "Read f n w =
     (case Exists f w of
        (_, Some err, w1) \<Rightarrow> ([], Some err, f, w1)
      | (False, None, w1) \<Rightarrow> ([], Some (ReadNotExist (URI f)), f, w1)
      | (True, None, w1) \<Rightarrow>
          (case openFile f w1 of
             (_, Some err, f1, w2) \<Rightarrow> ([], Some err, f1, w2)
           | (None, None, f1, w2) \<Rightarrow> ([], Some ErrInvalid, f1, w2)
           | (Some h, None, f1, w2) \<Rightarrow>
               (case file_Read h n w2 of
                  (data, err, h1, w3) \<Rightarrow> (data, err, f1\<lparr>file_ptr := Some h1\<rparr>, w3))))"

definition Seek :: "File \<Rightarrow> int \<Rightarrow> int \<Rightarrow> world \<Rightarrow> int \<times> error option \<times> File \<times> world" where
  "Seek f offset whence w =
     (case openFile f w of
        (_, Some err, f1, w1) \<Rightarrow> (0, Some err, f1, w1)
      | (None, None, f1, w1) \<Rightarrow> (0, Some ErrInvalid, f1, w1)
      | (Some h, None, f1, w1) \<Rightarrow>
          (case file_Seek h offset whence w1 of
             (pos, err, h1, w2) \<Rightarrow> (pos, err, f1\<lparr>file_ptr := Some h1\<rparr>, w2)))"

definition Write :: "File \<Rightarrow> string \<Rightarrow> world \<Rightarrow> nat \<times> error option \<times> File \<times> world" where
  "Write f p w =
     (case openFile f w of
        (_, Some err, f1, w1) \<Rightarrow> (0, Some err, f1, w1)
      | (None, None, f1, w1) \<Rightarrow> (0, Some ErrInvalid, f1, w1)
      | (Some h, None, f1, w1) \<Rightarrow>
          (case file_Write h p w1 of
             (n, err, h1, w2) \<Rightarrow> (n, err, f1\<lparr>file_ptr := Some h1\<rparr>, w2)))"

text \<open>
  Modelled from the spec: \<^verbatim>\<open>FileSystem.NewFile\<close> of the local disk
  (\<^verbatim>\<open>backend/os/fileSystem.go\<close>) is not part of the files at hand. By the spec it is a
  pure factory that fails with \<^verbatim>\<open>InvalidArgument\<close> when the path is empty, not absolute
  or denotes a directory (trailing slash), and the local disk ignores the volume; the
  File itself is made by \<^verbatim>\<open>newFile\<close>.
\<close>

definition FileSystem_NewFile :: "world \<Rightarrow> string \<Rightarrow> string \<Rightarrow> error + File" where
  "FileSystem_NewFile w volume p =
     (if p = [] \<or> \<not> IsAbs p \<or> last p = sep then Inl (InvalidArgument p)
      else newFile w p)"


text \<open>The buffer of \<^verbatim>\<open>io.Copy\<close> holds 32 KiB.\<close>

definition copy_buf :: nat where
  "copy_buf = 32768"

text \<open>
  \<^verbatim>\<open>io.Copy(writer, reader)\<close>: read a buffer, write what was read, until the reader
  reports an error; \<^verbatim>\<open>io.EOF\<close> ends the copy without error. The loop has no bound of
  its own, so the result is optional: \<open>None\<close> is a copy that never returns.
\<close>

partial_function (option) io_Copy ::
  "File \<Rightarrow> File \<Rightarrow> world \<Rightarrow> (error option \<times> File \<times> File \<times> world) option" where
  "io_Copy writer reader w =
     (case Read reader copy_buf w of
        (data, er, reader1, w1) \<Rightarrow>
          if data \<noteq> [] then
            (case Write writer data w1 of
               (nw, ew, writer1, w2) \<Rightarrow>
                 if ew \<noteq> None then Some (ew, writer1, reader1, w2)
                 else if nw \<noteq> length data then Some (Some ErrShortWrite, writer1, reader1, w2)
                 else
                   (case er of
                      None \<Rightarrow> io_Copy writer1 reader1 w2
                    | Some e \<Rightarrow>
                        Some (if e = EOF then None else Some e, writer1, reader1, w2)))
          else
            (case er of
               None \<Rightarrow> io_Copy writer reader1 w1
             | Some e \<Rightarrow> Some (if e = EOF then None else Some e, writer, reader1, w1)))"

declare io_Copy.simps [code]

text \<open>
  Modelled from the spec: \<^verbatim>\<open>utils.TouchCopy\<close>, the generic streaming copy, is not part
  of the files at hand. By the spec it streams the bytes of the source's Read side into
  the destination's Write side and handles the zero-length source explicitly: whenever
  the source exists, Write is invoked at least once, with an empty payload when the
  source is empty; a failure is propagated. The size probe fails when the source does
  not exist.
\<close>

definition TouchCopy ::
  "File \<Rightarrow> File \<Rightarrow> world \<Rightarrow> (error option \<times> File \<times> File \<times> world) option" where
  "TouchCopy writer reader w =
     (case Size reader w of
        (_, Some err, w1) \<Rightarrow> Some (Some err, writer, reader, w1)
      | (sz, None, w1) \<Rightarrow>
          if sz = 0 then
            (case Write writer [] w1 of
               (_, ew, writer1, w2) \<Rightarrow> Some (ew, writer1, reader, w2))
          else io_Copy writer reader w1)"

text \<open>
  \<^verbatim>\<open>copyWithName\<close> returns \<^verbatim>\<open>(nil, err)\<close> or \<^verbatim>\<open>(newFile, nil)\<close>; the receiver and
  the world are returned as they are left. The source's local \<^verbatim>\<open>newFile\<close> is \<open>nf\<close>
  here.
\<close>

definition copyWithName ::
  "File \<Rightarrow> string \<Rightarrow> Location \<Rightarrow> world \<Rightarrow> ((error + File) \<times> File \<times> world) option" where
  "copyWithName f nm loc w =
     (case FileSystem_NewFile w (loc_volume loc) (Join (loc_path loc) nm) of
        Inl err \<Rightarrow> Some (Inl err, f, w)
      | Inr nf \<Rightarrow>
          (case TouchCopy nf f w of
             None \<Rightarrow> None
           | Some (Some err, nf1, f1, w1) \<Rightarrow> Some (Inl err, f1, w1)
           | Some (None, nf1, f1, w1) \<Rightarrow>
               (case Close f1 w1 of
                  (Some fCloseErr, f2, w2) \<Rightarrow> Some (Inl fCloseErr, f2, w2)
                | (None, f2, w2) \<Rightarrow>
                    (case Close nf1 w2 of
                       (Some newFileCloseErr, nf2, w3) \<Rightarrow> Some (Inl newFileCloseErr, f2, w3)
                     | (None, nf2, w3) \<Rightarrow> Some (Inr nf2, f2, w3)))))"

definition CopyToFile :: "File \<Rightarrow> File \<Rightarrow> world \<Rightarrow> (error option \<times> File \<times> world) option" where
  "CopyToFile f target w =
     (case copyWithName f (Name target) (location target) w of
        None \<Rightarrow> None
      | Some (Inl err, f1, w1) \<Rightarrow> Some (Some err, f1, w1)
      | Some (Inr _, f1, w1) \<Rightarrow> Some (None, f1, w1))"

definition CopyToLocation ::
  "File \<Rightarrow> Location \<Rightarrow> world \<Rightarrow> ((error + File) \<times> File \<times> world) option" where
  "CopyToLocation f loc w = copyWithName f (name f) loc w"

definition MoveToFile :: "File \<Rightarrow> File \<Rightarrow> world \<Rightarrow> (error option \<times> File \<times> world) option" where
  "MoveToFile f target w =
     (case copyWithName f (Name target) (location target) w of
        None \<Rightarrow> None
      | Some (Inl err, f1, w1) \<Rightarrow> Some (Some err, f1, w1)
      | Some (Inr _, f1, w1) \<Rightarrow> Some (Delete f1 w1))"

text \<open>
  What a method returns as its \<^verbatim>\<open>vfs.File\<close>: the receiver itself (the pointer
  \<^verbatim>\<open>f\<close>), or another File.
\<close>

datatype file_ref = Receiver | Other File

text \<open>
  \<^verbatim>\<open>MoveToLocation\<close> returns \<^verbatim>\<open>f\<close> on every path; the third component is the
  receiver as the call leaves it.
\<close>

definition MoveToLocation ::
  "File \<Rightarrow> Location \<Rightarrow> world \<Rightarrow> (file_ref \<times> error option \<times> File \<times> world) option" where
  "MoveToLocation f loc w =
     (case copyWithName f (name f) loc w of
        None \<Rightarrow> None
      | Some (Inl err, f1, w1) \<Rightarrow> Some (Receiver, Some err, f1, w1)
      | Some (Inr _, f1, w1) \<Rightarrow>
          (case Delete f1 w1 of
             (Some delErr, f2, w2) \<Rightarrow> Some (Receiver, Some delErr, f2, w2)
           | (None, f2, w2) \<Rightarrow> Some (Receiver, None, f2\<lparr>location := loc\<rparr>, w2)))"

section \<open>Predicates used in the statements\<close>

text \<open>A call of \<^verbatim>\<open>os.Remove\<close> in the log.\<close>

fun is_remove :: "event \<Rightarrow> bool" where
  "is_remove (EvRemove _) = True"
| "is_remove _ = False"


text \<open>
  From \<open>w\<close> to \<open>w'\<close> nothing was removed: the log grew by calls other than
  \<^verbatim>\<open>os.Remove\<close>, every file and directory of \<open>w\<close> is still there, and the working
  directory and the environment's failures are the same.
\<close>

definition no_removal :: "world \<Rightarrow> world \<Rightarrow> bool" where
  "no_removal w w' \<longleftrightarrow>
     (\<exists>evs. trace w' = trace w @ evs \<and> list_all (\<lambda>e. \<not> is_remove e) evs) \<and>
     dom (files w) \<subseteq> dom (files w') \<and> dirs w \<subseteq> dirs w' \<and>
     cwd w' = cwd w \<and> fault w' = fault w"

text \<open>The same File as far as its coordinates go: only the handle slot may differ.\<close>

definition same_id :: "File \<Rightarrow> File \<Rightarrow> bool" where
  "same_id f f' \<longleftrightarrow> name f' = name f \<and> location f' = location f"

definition copy_frame ::
  "File \<Rightarrow> File \<Rightarrow> world \<Rightarrow> error option \<times> File \<times> File \<times> world \<Rightarrow> bool" where
  "copy_frame writer reader w y \<longleftrightarrow>
     (case y of (r, writer1, reader1, w1) \<Rightarrow>
        no_removal w w1 \<and> same_id reader reader1 \<and> same_id writer writer1)"


section \<open>Example worlds and files\<close>

text \<open>
  A small disk: directory \<^verbatim>\<open>/a\<close> with \<^verbatim>\<open>x.txt\<close> (two bytes) and the empty
  \<^verbatim>\<open>e.txt\<close>; no call fails unless the world says so.
\<close>

definition w0 :: world where
  "w0 = \<lparr>files = [''/a/x.txt'' \<mapsto> ''hi'', ''/a/e.txt'' \<mapsto> []],
          dirs = {''/'', ''/a''}, cwd = ''/'', dir_size = (\<lambda>_. 4096),
          fault = (\<lambda>_ _. None), trace = []\<rparr>"

text \<open>The same disk where closing \<^verbatim>\<open>/a/x.txt\<close> reports an I/O error.\<close>

definition wc :: world where
  "wc = w0\<lparr>fault := (\<lambda>s p. if s = SysClose \<and> p = ''/a/x.txt'' then Some EIO else None)\<rparr>"

text \<open>The same disk where the caller may not look at \<^verbatim>\<open>/a/x.txt\<close>.\<close>

definition ws :: world where
  "ws = w0\<lparr>fault := (\<lambda>s p. if s = SysStat \<and> p = ''/a/x.txt'' then Some EACCES else None)\<rparr>"

text \<open>The same disk where the caller may not make the directory \<^verbatim>\<open>/b\<close>.\<close>

definition wm :: world where
  "wm = w0\<lparr>fault := (\<lambda>s p. if s = SysMkdirAll \<and> p = ''/b'' then Some EACCES else None)\<rparr>"

definition la :: Location where
  "la = \<lparr>loc_volume = [], loc_path = ''/a/''\<rparr>"

definition lb :: Location where
  "lb = \<lparr>loc_volume = [], loc_path = ''/b/''\<rparr>"

definition f0 :: File where
  "f0 = \<lparr>file_ptr = None, name = ''x.txt'', location = la\<rparr>"

definition e0 :: File where
  "e0 = \<lparr>file_ptr = None, name = ''e.txt'', location = la\<rparr>"

text \<open>A File of \<^verbatim>\<open>/a\<close> whose object was never created.\<close>

definition n0 :: File where
  "n0 = \<lparr>file_ptr = None, name = ''nope'', location = la\<rparr>"

definition h0 :: os_File where
  "h0 = \<lparr>h_path = ''/a/x.txt'', h_pos = 0, h_open = True\<rparr>"

text \<open>The File \<^verbatim>\<open>/b/x.txt\<close>, the target of a copy or a move.\<close>

definition t0 :: File where
  "t0 = \<lparr>file_ptr = None, name = ''x.txt'', location = lb\<rparr>"

text \<open>The same disk where the caller may not remove \<^verbatim>\<open>/a/x.txt\<close>.\<close>

definition wr :: world where
  "wr = w0\<lparr>fault := (\<lambda>s p. if s = SysRemove \<and> p = ''/a/x.txt'' then Some EACCES else None)\<rparr>"

text \<open>A File under \<^verbatim>\<open>/q/r\<close>, a directory that does not exist yet.\<close>

definition q0 :: File where
  "q0 = \<lparr>file_ptr = None, name = ''new.txt'', location = \<lparr>loc_volume = [], loc_path = ''/q/r/''\<rparr>\<rparr>"


section \<open>Well-formed paths\<close>

text \<open>
  An ordinary path element: not empty, without a separator, and neither \<^verbatim>\<open>.\<close> nor
  \<^verbatim>\<open>..\<close>.
\<close>

definition plain :: "string \<Rightarrow> bool" where
  "plain c \<longleftrightarrow> c \<noteq> [] \<and> sep \<notin> set c \<and> c \<noteq> ''.'' \<and> c \<noteq> ''..''"

text \<open>The absolute path with elements \<open>cs\<close>: each element after a separator.\<close>

definition abs_path :: "string list \<Rightarrow> string" where
  "abs_path cs = concat (map ((#) sep) cs)"

text \<open>The directory path with elements \<open>cs\<close>: rooted, and ending in a separator.\<close>

definition dir_path :: "string list \<Rightarrow> string" where
  "dir_path cs = abs_path cs @ [sep]"

text \<open>Two separators in a row somewhere in the path.\<close>

fun doubled_sep :: "string \<Rightarrow> bool" where
  "doubled_sep (a # b # cs) = (a = sep \<and> b = sep \<or> doubled_sep (b # cs))"
| "doubled_sep _ = False"

text \<open>The File of the path test: \<^verbatim>\<open>/some/path/to/file.txt\<close>.\<close>

definition s0 :: File where
  "s0 = \<lparr>file_ptr = None, name = ''file.txt'',
          location = \<lparr>loc_volume = [], loc_path = ''/some/path/to/''\<rparr>\<rparr>"

text \<open>The File that \<^verbatim>\<open>newFile\<close> makes of \<^verbatim>\<open>/a/..\<close>.\<close>

definition d0 :: File where
  "d0 = \<lparr>file_ptr = None, name = ''..'', location = \<lparr>loc_volume = [], loc_path = ''/''\<rparr>\<rparr>"

text \<open>
  The File that \<^verbatim>\<open>newFile\<close> makes of \<^verbatim>\<open>/a/x.txt/inner\<close>: its path leads through
  the regular file \<^verbatim>\<open>/a/x.txt\<close>.
\<close>

definition i0 :: File where
  "i0 = \<lparr>file_ptr = None, name = ''inner'',
          location = \<lparr>loc_volume = [], loc_path = ''/a/x.txt/''\<rparr>\<rparr>"


section \<open>What a copy writes\<close>

text \<open>
  The calls that the streaming copy and the two Closes of \<^verbatim>\<open>copyWithName\<close> make:
  \<^verbatim>\<open>os.Stat\<close>, \<^verbatim>\<open>os.MkdirAll\<close>, \<^verbatim>\<open>os.OpenFile\<close>, and Read, Write and Close of an
  open file.
\<close>

fun is_copy_call :: "event \<Rightarrow> bool" where
  "is_copy_call (EvStat _) = True"
| "is_copy_call (EvMkdirAll _) = True"
| "is_copy_call (EvOpenFile _) = True"
| "is_copy_call (EvClose _) = True"
| "is_copy_call (EvRead _ _) = True"
| "is_copy_call (EvWrite _ _) = True"
| "is_copy_call _ = False"

text \<open>The bytes that a logged call hands to a Write on the file \<open>p\<close>.\<close>

fun payload :: "string \<Rightarrow> event \<Rightarrow> string" where
  "payload p (EvWrite q b) = (if q = p then b else [])"
| "payload p _ = []"

text \<open>All bytes written to \<open>p\<close> by the calls \<open>evs\<close>, in the order of the calls.\<close>

definition written :: "string \<Rightarrow> event list \<Rightarrow> string" where
  "written p evs = concat (map (payload p) evs)"

text \<open>The offset at which a File reads or writes next: 0 while it holds no handle.\<close>

definition offset :: "File \<Rightarrow> nat" where
  "offset f = (case file_ptr f of None \<Rightarrow> 0 | Some h \<Rightarrow> h_pos h)"


text \<open>
  From \<open>w\<close> to \<open>w'\<close> the log grew by calls of the copy only, and these wrote the bytes
  \<open>bs\<close> to the file \<open>p\<close>.
\<close>

definition copy_log :: "world \<Rightarrow> world \<Rightarrow> string \<Rightarrow> string \<Rightarrow> bool" where
  "copy_log w w' p bs \<longleftrightarrow>
     (\<exists>evs. trace w' = trace w @ evs \<and> list_all is_copy_call evs \<and> written p evs = bs)"


text \<open>The File \<^verbatim>\<open>/a/x.txt\<close> holding a handle that has been read to the end.\<close>

definition g0 :: File where
  "g0 = f0\<lparr>file_ptr := Some (h0\<lparr>h_pos := 2\<rparr>)\<rparr>"


section \<open>Unfolding the model on concrete input\<close>

lemmas path_eval = Path_def Join_def Clean_def IsAbs_def sep_def clean_step_def Name_def
  Dir_def Base_def abs_in_def resolve_def AddTrailingSlash_def dirs_upto_def

lemmas os_eval = below_file_def os_Stat_def os_Remove_def os_MkdirAll_def os_OpenFile_def file_Close_def
  file_Read_def file_Write_def file_Seek_def log_call_def filepath_Abs_def Let_def overwrite_def

lemmas file_eval = Exists_def Size_def Close_def openFile_def Read_def Write_def Seek_def
  Delete_def newFile_def FileSystem_NewFile_def TouchCopy_def copyWithName_def URI_def
  copy_buf_def io_Copy.simps

lemmas ex_eval = w0_def wc_def ws_def wm_def wr_def la_def lb_def f0_def e0_def n0_def h0_def t0_def q0_def s0_def d0_def i0_def g0_def


section \<open>What the calls leave in place\<close>

lemma IsNotExist_PathError [simp]: "IsNotExist (PathError s p e) \<longleftrightarrow> e = ENOENT"
  by (cases e) simp_all

lemma no_removal_refl [simp]: "no_removal w w"
  by (simp add: no_removal_def)

lemma no_removal_trans: "no_removal w w1 \<Longrightarrow> no_removal w1 w2 \<Longrightarrow> no_removal w w2"
  unfolding no_removal_def by (elim conjE exE) (auto simp: list_all_iff)

lemma same_id_refl [simp]: "same_id f f"
  by (simp add: same_id_def)

lemma same_id_trans: "same_id f f1 \<Longrightarrow> same_id f1 f2 \<Longrightarrow> same_id f f2"
  by (simp add: same_id_def)

lemma same_id_Path: "same_id f f1 \<Longrightarrow> Path f1 = Path f"
  by (simp add: same_id_def Path_def)

lemma no_removal_log: "\<not> is_remove e \<Longrightarrow> no_removal w (log_call e w)"
  by (simp add: no_removal_def log_call_def)

lemma os_Stat_frame: "os_Stat p w = (r, w1) \<Longrightarrow> no_removal w w1"
  by (auto simp: os_Stat_def Let_def no_removal_def log_call_def split: option.splits if_splits)

lemma os_MkdirAll_frame: "os_MkdirAll p w = (r, w1) \<Longrightarrow> no_removal w w1"
  by (auto simp: os_MkdirAll_def Let_def no_removal_def log_call_def split: option.splits if_splits)

lemma os_OpenFile_frame: "os_OpenFile p w = (h, r, w1) \<Longrightarrow> no_removal w w1"
  by (auto simp: os_OpenFile_def Let_def no_removal_def log_call_def split: option.splits if_splits)

lemma file_Close_frame: "file_Close h w = (r, h1, w1) \<Longrightarrow> no_removal w w1"
  by (auto simp: file_Close_def Let_def no_removal_def log_call_def split: option.splits if_splits)

lemma file_Read_frame: "file_Read h n w = (d, r, h1, w1) \<Longrightarrow> no_removal w w1"
  by (auto simp: file_Read_def Let_def no_removal_def log_call_def split: option.splits if_splits)

lemma file_Write_frame: "file_Write h b w = (n, r, h1, w1) \<Longrightarrow> no_removal w w1"
  by (auto simp: file_Write_def Let_def no_removal_def log_call_def split: option.splits if_splits)

lemma Exists_frame: "Exists f w = (b, r, w1) \<Longrightarrow> no_removal w w1"
  by (auto simp: Exists_def split: prod.splits sum.splits if_splits dest: os_Stat_frame)

lemma Size_frame: "Size f w = (n, r, w1) \<Longrightarrow> no_removal w w1"
  by (auto simp: Size_def split: prod.splits sum.splits if_splits dest: os_Stat_frame)

lemma openFile_frame: "openFile f w = (h, r, f1, w1) \<Longrightarrow> no_removal w w1 \<and> same_id f f1"
  by (auto simp: openFile_def same_id_def split: prod.splits option.splits
      dest: os_MkdirAll_frame os_OpenFile_frame intro: no_removal_trans)

lemma Close_frame: "Close f w = (r, f1, w1) \<Longrightarrow> no_removal w w1 \<and> same_id f f1"
  by (auto simp: Close_def same_id_def split: prod.splits option.splits dest: file_Close_frame)

lemma Read_frame: "Read f n w = (d, r, f1, w1) \<Longrightarrow> no_removal w w1 \<and> same_id f f1"
  by (auto simp: Read_def same_id_def split: prod.splits option.splits bool.splits
      dest!: Exists_frame openFile_frame file_Read_frame intro: no_removal_trans)

lemma Write_frame: "Write f b w = (n, r, f1, w1) \<Longrightarrow> no_removal w w1 \<and> same_id f f1"
  by (auto simp: Write_def same_id_def split: prod.splits option.splits
      dest!: openFile_frame file_Write_frame intro: no_removal_trans)

lemma io_Copy_frame:
  assumes "io_Copy writer reader w = Some y"
  shows "copy_frame writer reader w y"
proof (rule io_Copy.raw_induct [where P = copy_frame, OF _ assms])
  fix rec wr rd v y0
  assume IH: "\<And>a b c d. rec a b c = Some d \<Longrightarrow> copy_frame a b c d"
  assume body:
    "(case Read rd copy_buf v of
        (data, er, reader1, w1) \<Rightarrow>
          if data \<noteq> [] then
            (case Write wr data w1 of
               (nw, ew, writer1, w2) \<Rightarrow>
                 if ew \<noteq> None then Some (ew, writer1, reader1, w2)
                 else if nw \<noteq> length data then Some (Some ErrShortWrite, writer1, reader1, w2)
                 else
                   (case er of
                      None \<Rightarrow> rec writer1 reader1 w2
                    | Some e \<Rightarrow>
                        Some (if e = EOF then None else Some e, writer1, reader1, w2)))
          else
            (case er of
               None \<Rightarrow> rec wr reader1 w1
             | Some e \<Rightarrow> Some (if e = EOF then None else Some e, wr, reader1, w1))) = Some y0"
  obtain d er rd1 v1 where R: "Read rd copy_buf v = (d, er, rd1, v1)"
    by (cases "Read rd copy_buf v") auto
  have fr: "no_removal v v1" "same_id rd rd1"
    using Read_frame [OF R] by simp_all
  show "copy_frame wr rd v y0"
  proof (cases "d = []")
    case True
    show ?thesis
    proof (cases er)
      case None
      with body R True have "rec wr rd1 v1 = Some y0" by simp
      from IH [OF this] fr show ?thesis
        by (auto simp: copy_frame_def intro: no_removal_trans same_id_trans)
    next
      case (Some e)
      with body R True fr show ?thesis
        by (auto simp: copy_frame_def)
    qed
  next
    case False
    obtain nw ew wr1 v2 where W: "Write wr d v1 = (nw, ew, wr1, v2)"
      by (cases "Write wr d v1") auto
    have fw: "no_removal v1 v2" "same_id wr wr1"
      using Write_frame [OF W] by simp_all
    have v2: "no_removal v v2"
      using fr(1) fw(1) by (rule no_removal_trans)
    show ?thesis
    proof (cases "ew \<noteq> None \<or> nw \<noteq> length d \<or> er \<noteq> None")
      case True
      with body R W False fr fw v2 show ?thesis
        by (auto simp: copy_frame_def split: if_splits)
    next
      case stop: False
      with body R W False have "rec wr1 rd1 v2 = Some y0" by simp
      from IH [OF this] fr fw v2 show ?thesis
        by (auto simp: copy_frame_def intro: no_removal_trans same_id_trans)
    qed
  qed
qed

lemma TouchCopy_frame:
  "TouchCopy writer reader w = Some (r, writer1, reader1, w1) \<Longrightarrow>
     no_removal w w1 \<and> same_id reader reader1 \<and> same_id writer writer1"
  by (auto simp: TouchCopy_def split: prod.splits option.splits if_splits
      simp: copy_frame_def dest!: Size_frame Write_frame io_Copy_frame intro: no_removal_trans)

lemma copyWithName_frame:
  "copyWithName f nm loc w = Some (r, f1, w1) \<Longrightarrow> no_removal w w1 \<and> same_id f f1"
  by (auto simp: copyWithName_def split: prod.splits option.splits if_splits sum.splits
      dest!: TouchCopy_frame Close_frame intro: no_removal_trans same_id_trans)

lemma Delete_then_Read_fails:
  assumes "Delete f w = (None, f1, w1)"
  shows "fst (snd (Read f1 n w1)) \<noteq> None"
  using assms
  by (auto simp: Delete_def os_Remove_def Read_def Exists_def os_Stat_def openFile_def os_MkdirAll_def
      os_OpenFile_def Let_def log_call_def resolve_def Path_def
      split: option.splits if_splits prod.splits sum.splits bool.splits)

lemma Read_missing:
  assumes "files w (resolve w (Path f)) = None" "resolve w (Path f) \<notin> dirs w"
    and "Read f n w = (d, er, f1, w1)"
  shows "d = [] \<and> er \<noteq> None \<and> f1 = f \<and> files w1 = files w \<and> dirs w1 = dirs w"
  using assms
  by (auto simp: Read_def Exists_def os_Stat_def Let_def log_call_def
      split: option.splits if_splits)

lemma openFile_creates:
  assumes "file_ptr f = None" "openFile f w = (Some h, None, f1, w1)"
  shows "h = \<lparr>h_path = resolve w (Path f), h_pos = 0, h_open = True\<rparr> \<and>
         file_ptr f1 = Some h \<and>
         files w1 = (if files w (resolve w (Path f)) = None
                     then (files w)(resolve w (Path f) \<mapsto> []) else files w) \<and>
         dirs w1 = dirs w \<union> set (dirs_upto (resolve w (loc_path (location f)))) \<and>
         cwd w1 = cwd w \<and> fault w1 = fault w \<and>
         trace w1 = trace w @ [EvMkdirAll (loc_path (location f)), EvOpenFile (Path f)]"
  using assms
  by (auto simp: openFile_def os_MkdirAll_def os_OpenFile_def Let_def log_call_def resolve_def
      split: option.splits if_splits prod.splits)

lemma newFile_no_handle: "newFile w p = Inr nf \<Longrightarrow> file_ptr nf = None"
  by (auto simp: newFile_def split: sum.splits)

lemma FileSystem_NewFile_no_handle: "FileSystem_NewFile w v p = Inr nf \<Longrightarrow> file_ptr nf = None"
  by (auto simp: FileSystem_NewFile_def newFile_no_handle split: if_splits)

lemma Size_of_file:
  assumes "files w (resolve w (Path f)) = Some c" "Size f w = (n, None, w1)"
  shows "n = length c \<and> w1 = log_call (EvStat (Path f)) w"
  using assms by (auto simp: Size_def os_Stat_def Let_def split: option.splits if_splits)

lemma Write_first:
  assumes "file_ptr f = None" "Write f p w = (k, None, f1, w1)"
  shows "file_ptr f1 = Some \<lparr>h_path = resolve w (Path f), h_pos = length p, h_open = True\<rparr> \<and>
         files w1 (resolve w (Path f)) =
           Some (overwrite (case files w (resolve w (Path f)) of None \<Rightarrow> [] | Some c \<Rightarrow> c) 0 p) \<and>
         trace w1 = trace w @ [EvMkdirAll (loc_path (location f)), EvOpenFile (Path f),
                               EvWrite (resolve w (Path f)) p]"
proof -
  from assms(2) obtain h f' w' h1 where o: "openFile f w = (Some h, None, f', w')"
    and fw: "file_Write h p w' = (k, None, h1, w1)" and f1: "f1 = f'\<lparr>file_ptr := Some h1\<rparr>"
    by (auto simp: Write_def split: prod.splits option.splits)
  note c = openFile_creates [OF assms(1) o]
  from fw c f1 show ?thesis
    by (auto simp: file_Write_def Let_def log_call_def split: option.splits if_splits)
qed

lemma Close_effect:
  assumes "Close f w = (None, f1, w1)"
  shows "files w1 = files w \<and> cwd w1 = cwd w \<and> file_ptr f1 = None \<and>
         trace w1 = trace w @ (case file_ptr f of None \<Rightarrow> [] | Some h \<Rightarrow> [EvClose (h_path h)])"
  using assms
  by (auto simp: Close_def file_Close_def Let_def log_call_def split: option.splits if_splits)

section \<open>Cleaning a path that is already clean\<close>

lemma split_sep_nonempty [simp]: "split_sep s \<noteq> []"
  by (induction s) (auto split: list.splits)

lemma split_sep_plain: "sep \<notin> set c \<Longrightarrow> split_sep c = [c]"
  by (induction c) auto

lemma split_sep_append:
  "sep \<notin> set c \<Longrightarrow> split_sep (c @ sep # s) = c # split_sep s"
  by (induction c) auto

lemma split_sep_abs_path:
  "\<forall>c\<in>set cs. sep \<notin> set c \<Longrightarrow> split_sep (abs_path cs @ sep # r) = [] # cs @ split_sep r"
proof (induction cs)
  case Nil
  then show ?case by (simp add: abs_path_def)
next
  case (Cons c cs)
  have "abs_path (c # cs) @ sep # r = sep # c @ (abs_path cs @ sep # r)"
    by (simp add: abs_path_def)
  moreover have "abs_path cs @ sep # r = sep # tl (abs_path cs @ sep # r)"
    by (cases cs) (simp_all add: abs_path_def)
  ultimately have "split_sep (abs_path (c # cs) @ sep # r)
      = [] # c # tl (split_sep (abs_path cs @ sep # r))"
    using Cons.prems
    by (metis list.sel(3) list.set_intros(1) split_sep.simps(2) split_sep_append)
  with Cons show ?case by simp
qed

lemma clean_step_plain: "plain c \<Longrightarrow> clean_step r st c = st @ [c]"
  by (auto simp: clean_step_def plain_def)

lemma foldl_clean_step_plain:
  "list_all plain cs \<Longrightarrow> foldl (clean_step r) st cs = st @ cs"
  by (induction cs arbitrary: st) (simp_all add: clean_step_plain)

lemma clean_step_empty [simp]: "clean_step r st [] = st"
  by (simp add: clean_step_def)

lemma join_sep_abs_path: "cs \<noteq> [] \<Longrightarrow> sep # join_sep cs = abs_path cs"
  by (induction cs rule: join_sep.induct) (simp_all add: abs_path_def)

lemma abs_path_append: "abs_path (cs @ ds) = abs_path cs @ abs_path ds"
  by (simp add: abs_path_def)

lemma IsAbs_sep [simp]: "IsAbs (sep # s)"
  by (simp add: IsAbs_def)

lemma IsAbs_dir_path [simp]: "IsAbs (dir_path cs @ s)"
  by (cases cs) (simp_all add: dir_path_def abs_path_def IsAbs_def)

lemma plain_no_sep: "list_all plain cs \<Longrightarrow> \<forall>c\<in>set cs. sep \<notin> set c"
  by (auto simp: list_all_iff plain_def)

lemma Join_dir_path_plain:
  assumes "list_all plain cs" "plain n"
  shows "Join (dir_path cs) n = dir_path cs @ n"
proof -
  have ne: "dir_path cs \<noteq> []" by (simp add: dir_path_def)
  have sp: "split_sep (dir_path cs @ sep # n) = [] # cs @ [[], n]"
    using split_sep_abs_path [OF plain_no_sep [OF assms(1)], of "sep # n"] assms(2)
    by (simp add: dir_path_def split_sep_plain plain_def)
  have "foldl (clean_step True) [] ([] # cs @ [[], n]) = cs @ [n]"
    using assms by (simp add: foldl_clean_step_plain clean_step_plain)
  moreover have "IsAbs (dir_path cs @ sep # n)" by simp
  ultimately have "Clean (dir_path cs @ sep # n) = sep # join_sep (cs @ [n])"
    using sp by (simp add: Clean_def Let_def)
  also have "\<dots> = abs_path (cs @ [n])" by (simp add: join_sep_abs_path)
  also have "\<dots> = dir_path cs @ n" by (simp add: abs_path_def dir_path_def)
  finally show ?thesis using ne by (simp add: Join_def)
qed

lemma doubled_sep_append:
  "doubled_sep (a @ b) \<longleftrightarrow>
     doubled_sep a \<or> doubled_sep b \<or> (a \<noteq> [] \<and> b \<noteq> [] \<and> last a = sep \<and> hd b = sep)"
  apply (induction a rule: doubled_sep.induct)
    apply auto[1]
   apply simp
  subgoal for x by (cases b) auto
  done

lemma doubled_sep_no_sep: "sep \<notin> set c \<Longrightarrow> \<not> doubled_sep c"
  by (induction c rule: doubled_sep.induct) auto

lemma last_abs_path: "cs \<noteq> [] \<Longrightarrow> list_all plain cs \<Longrightarrow> last (abs_path cs) \<noteq> sep"
proof -
  assume "cs \<noteq> []" "list_all plain cs"
  then obtain ds c where cs: "cs = ds @ [c]" and c: "plain c"
    by (cases cs rule: rev_cases) auto
  then have "abs_path cs = abs_path ds @ sep # c" and "c \<noteq> []" and "sep \<notin> set c"
    by (simp_all add: abs_path_def plain_def)
  then show ?thesis by (metis last_appendR last_ConsR last_in_set list.distinct(1))
qed

lemma abs_path_no_doubled: "list_all plain cs \<Longrightarrow> \<not> doubled_sep (abs_path cs)"
proof (induction cs)
  case Nil
  then show ?case by (simp add: abs_path_def)
next
  case (Cons c cs)
  then have pc: "plain c" and cs: "list_all plain cs"
    by simp_all
  from pc have c: "c \<noteq> []" "sep \<notin> set c"
    by (simp_all add: plain_def)
  have eq: "abs_path (c # cs) = (sep # c) @ abs_path cs"
    by (simp add: abs_path_def)
  have h: "hd c \<noteq> sep" "last c \<noteq> sep"
    using c by (metis hd_in_set, metis last_in_set)
  have "\<not> doubled_sep (sep # c)"
    using c h doubled_sep_no_sep [OF c(2)] by (cases c) auto
  with Cons.IH [OF cs] h c show ?case
    unfolding eq doubled_sep_append by auto
qed

lemma dir_path_no_doubled: "list_all plain cs \<Longrightarrow> \<not> doubled_sep (dir_path cs)"
  using abs_path_no_doubled [of cs] last_abs_path [of cs]
  by (cases "cs = []") (auto simp: dir_path_def doubled_sep_append abs_path_def)

lemma Clean_abs_path:
  assumes "list_all plain xs" "xs \<noteq> []"
  shows "Clean (abs_path xs) = abs_path xs"
proof -
  from assms obtain cs n where xs: "xs = cs @ [n]" and cs: "list_all plain cs" and n: "plain n"
    by (cases xs rule: rev_cases) auto
  have eq: "abs_path xs = abs_path cs @ sep # n"
    by (simp add: xs abs_path_def)
  have sp: "split_sep (abs_path xs) = [] # cs @ [n]"
    unfolding eq using split_sep_abs_path [OF plain_no_sep [OF cs], of n] n
    by (simp add: split_sep_plain plain_def)
  have ab: "IsAbs (abs_path xs)" "abs_path xs \<noteq> []"
    unfolding eq by (cases cs; simp add: abs_path_def IsAbs_def)+
  have "foldl (clean_step True) [] ([] # cs @ [n]) = cs @ [n]"
    using cs n by (simp add: foldl_clean_step_plain clean_step_plain)
  with sp ab have "Clean (abs_path xs) = sep # join_sep (cs @ [n])"
    by (simp add: Clean_def Let_def)
  then show ?thesis by (simp add: join_sep_abs_path xs)
qed

lemma Clean_dir_path:
  assumes "list_all plain cs"
  shows "Clean (dir_path cs) = sep # join_sep cs"
proof -
  have sp: "split_sep (dir_path cs) = [] # cs @ [[]]"
    using split_sep_abs_path [OF plain_no_sep [OF assms], of "[]"]
    by (simp add: dir_path_def)
  have "foldl (clean_step True) [] ([] # cs @ [[]]) = cs"
    using assms by (simp add: foldl_clean_step_plain)
  moreover have "IsAbs (dir_path cs)" "dir_path cs \<noteq> []"
    using IsAbs_dir_path [of cs "[]"] by (simp_all add: dir_path_def)
  ultimately show ?thesis using sp by (simp add: Clean_def Let_def)
qed

lemma newFile_plain:
  assumes "list_all plain cs" "plain n"
  shows "newFile w (abs_path (cs @ [n])) =
           Inr \<lparr>file_ptr = None, name = n, location = \<lparr>loc_volume = [], loc_path = dir_path cs\<rparr>\<rparr>"
proof -
  let ?p = "abs_path (cs @ [n])"
  have eq: "?p = abs_path cs @ sep # n" by (simp add: abs_path_def)
  from assms(2) have n: "n \<noteq> []" "sep \<notin> set n" by (simp_all add: plain_def)
  then have ln: "last n \<noteq> sep" by (metis last_in_set)
  have rv: "rev ?p = rev n @ sep # rev (abs_path cs)" by (simp add: eq)
  have lp: "last ?p = last n" "?p \<noteq> []"
    using n(1) by (simp_all add: eq)
  have dw: "dropWhile (\<lambda>c. c = sep) (rev ?p) = rev ?p"
    using lp ln by (simp add: dropWhile_eq_self_iff hd_rev del: rev_append rev.simps)
  have ns: "\<And>x. x \<in> set (rev n) \<Longrightarrow> x \<noteq> sep"
    using n(2) by auto
  have tw: "takeWhile (\<lambda>c. c \<noteq> sep) (rev ?p) = rev n"
    unfolding rv by (subst takeWhile_append2) (use ns in simp_all)
  have base: "Base ?p = n"
    using n(1) lp(2) by (simp add: Base_def Let_def dw tw)
  have ab: "IsAbs ?p" unfolding eq by (cases cs) (simp_all add: abs_path_def IsAbs_def)
  have cl: "Clean ?p = ?p"
    using assms by (intro Clean_abs_path) simp_all
  have dd: "dropWhile (\<lambda>c. c \<noteq> sep) (rev ?p) = sep # rev (abs_path cs)"
    unfolding rv by (subst dropWhile_append2) (use ns in simp_all)
  have dir: "Dir ?p = sep # join_sep cs"
    using Clean_dir_path [OF assms(1)] by (simp add: Dir_def dd dir_path_def)
  have ats: "AddTrailingSlash (sep # join_sep cs) = dir_path cs"
  proof (cases "cs = []")
    case True
    then show ?thesis by (simp add: AddTrailingSlash_def dir_path_def abs_path_def)
  next
    case False
    with last_abs_path [OF False assms(1)] show ?thesis
      by (simp add: AddTrailingSlash_def join_sep_abs_path dir_path_def)
  qed
  show ?thesis
    using ab by (simp add: newFile_def filepath_Abs_def Let_def base cl dir ats)
qed

section \<open>Opening a File for the first time\<close>

lemma openFile_fails:
  assumes "file_ptr f = None" "openFile f w = (h, Some e, f1, w1)"
  shows "h = None \<and> f1 = f \<and> files w1 = files w \<and> cwd w1 = cwd w"
  using assms
  by (auto simp: openFile_def os_MkdirAll_def os_OpenFile_def Let_def log_call_def
      split: option.splits if_splits prod.splits)

lemma openFile_handle:
  assumes "file_ptr f = None" "openFile f w = (h, None, f1, w1)"
  shows "h \<noteq> None"
  using assms
  by (auto simp: openFile_def os_MkdirAll_def os_OpenFile_def Let_def log_call_def
      split: option.splits if_splits prod.splits)

lemma Write_opens_first:
  assumes "file_ptr f = None" "files w (resolve w (Path f)) = None"
    and o: "openFile f w = (h, oe, f1, w1)" and wr: "Write f p w = (k, ew, f2, w2)"
  shows "(oe \<noteq> None \<longrightarrow> ew = oe \<and> files w2 = files w) \<and>
         (oe = None \<longrightarrow>
            files w2 (resolve w (Path f)) = Some (if ew = None then p else []) \<and>
            set (dirs_upto (resolve w (loc_path (location f)))) \<subseteq> dirs w2)"
proof (cases oe)
  case (Some e)
  with o have o': "openFile f w = (h, Some e, f1, w1)" by simp
  from openFile_fails [OF assms(1) o'] wr o' Some show ?thesis
    by (auto simp: Write_def)
next
  case None
  with o have o0: "openFile f w = (h, None, f1, w1)" by simp
  from openFile_handle [OF assms(1) o0] obtain hh where "h = Some hh" by auto
  with o0 have o': "openFile f w = (Some hh, None, f1, w1)" by simp
  note c = openFile_creates [OF assms(1) o']
  from wr o' have "file_Write hh p w1 = (k, ew, the (file_ptr f2), w2)"
    by (auto simp: Write_def split: prod.splits)
  with c assms(2) None show ?thesis
    by (auto simp: file_Write_def Let_def log_call_def overwrite_def split: option.splits if_splits)
qed

lemma Seek_opens_first:
  assumes "file_ptr f = None" "files w (resolve w (Path f)) = None"
    and o: "openFile f w = (h, oe, f1, w1)" and sk: "Seek f off wh w = (pos, es, f3, w3)"
  shows "(oe \<noteq> None \<longrightarrow> es = oe \<and> files w3 = files w) \<and>
         (oe = None \<longrightarrow>
            files w3 (resolve w (Path f)) = Some [] \<and>
            set (dirs_upto (resolve w (loc_path (location f)))) \<subseteq> dirs w3)"
proof (cases oe)
  case (Some e)
  with o have o': "openFile f w = (h, Some e, f1, w1)" by simp
  from openFile_fails [OF assms(1) o'] sk o' Some show ?thesis
    by (auto simp: Seek_def)
next
  case None
  with o have o0: "openFile f w = (h, None, f1, w1)" by simp
  from openFile_handle [OF assms(1) o0] obtain hh where "h = Some hh" by auto
  with o0 have o': "openFile f w = (Some hh, None, f1, w1)" by simp
  note c = openFile_creates [OF assms(1) o']
  from sk o' have "file_Seek hh off wh w1 = (pos, es, the (file_ptr f3), w3)"
    by (auto simp: Seek_def split: prod.splits)
  with c assms(2) None show ?thesis
    by (auto simp: file_Seek_def Let_def log_call_def split: option.splits if_splits)
qed

lemma inits_snoc: "inits (xs @ [x]) = inits xs @ [xs @ [x]]"
  by (induction xs) simp_all

lemma inits_self: "xs \<in> set (inits xs)"
  by (induction xs) auto

lemma inits_prefix: "p \<in> set (inits xs) \<Longrightarrow> \<exists>r. xs = p @ r"
  by (induction xs arbitrary: p) auto

lemma plain_nonempty: "list_all plain cs \<Longrightarrow> filter (\<lambda>c. c \<noteq> []) cs = cs"
  by (induction cs) (auto simp: plain_def)

lemma split_sep_abs_path_plain:
  assumes "list_all plain xs" "xs \<noteq> []"
  shows "split_sep (abs_path xs) = [] # xs"
proof -
  from assms obtain cs n where xs: "xs = cs @ [n]" and cs: "list_all plain cs" and n: "plain n"
    by (cases xs rule: rev_cases) auto
  have "abs_path xs = abs_path cs @ sep # n" by (simp add: xs abs_path_def)
  then show ?thesis
    using split_sep_abs_path [OF plain_no_sep [OF cs], of n] n
    by (simp add: split_sep_plain plain_def xs)
qed

lemma comps_root: "filter (\<lambda>c. c \<noteq> []) (split_sep (sep # join_sep cs)) = cs" if "list_all plain cs"
proof (cases "cs = []")
  case True
  then show ?thesis by simp
next
  case False
  with that show ?thesis
    by (simp add: join_sep_abs_path split_sep_abs_path_plain plain_nonempty)
qed

lemma dirs_upto_dir: "list_all plain cs \<Longrightarrow>
    dirs_upto (sep # join_sep cs) = map (\<lambda>ds. sep # join_sep ds) (inits cs)"
  by (simp only: dirs_upto_def comps_root)

lemma dirs_upto_file:
  assumes "list_all plain cs" "plain n"
  shows "butlast (dirs_upto (abs_path (cs @ [n]))) = dirs_upto (sep # join_sep cs)"
proof -
  have "list_all plain (cs @ [n])" using assms by simp
  from comps_root [OF this] have "dirs_upto (sep # join_sep (cs @ [n])) =
      map (\<lambda>ds. sep # join_sep ds) (inits (cs @ [n]))"
    by (simp only: dirs_upto_def)
  then have "dirs_upto (abs_path (cs @ [n])) =
      map (\<lambda>ds. sep # join_sep ds) (inits (cs @ [n]))"
    by (simp add: join_sep_abs_path)
  then show ?thesis
    using assms(1) by (simp add: inits_snoc dirs_upto_dir)
qed

lemma abs_path_not_dir:
  assumes "list_all plain cs" "plain n"
  shows "abs_path (cs @ [n]) \<notin> set (dirs_upto (sep # join_sep cs))"
proof
  assume "abs_path (cs @ [n]) \<in> set (dirs_upto (sep # join_sep cs))"
  then obtain ds where ds: "ds \<in> set (inits cs)" and eq: "abs_path (cs @ [n]) = sep # join_sep ds"
    using assms(1) by (auto simp: dirs_upto_dir)
  from inits_prefix [OF ds] obtain r where cs: "cs = ds @ r" by blast
  from assms(2) have n: "n \<noteq> []" by (simp add: plain_def)
  show False
  proof (cases "ds = []")
    case True
    with eq cs n show False by (cases r) (simp_all add: abs_path_def)
  next
    case False
    with eq have "abs_path (ds @ r @ [n]) = abs_path ds"
      by (simp add: join_sep_abs_path cs)
    then show False by (simp add: abs_path_def)
  qed
qed

lemma Dir_abs_path:
  assumes "list_all plain cs" "plain n"
  shows "Dir (abs_path (cs @ [n])) = sep # join_sep cs"
proof -
  from assms(2) have n: "sep \<notin> set n" by (simp add: plain_def)
  have rv: "rev (abs_path (cs @ [n])) = rev n @ sep # rev (abs_path cs)"
    by (simp add: abs_path_def)
  have ns: "\<And>x. x \<in> set (rev n) \<Longrightarrow> x \<noteq> sep"
    using n by auto
  have "dropWhile (\<lambda>c. c \<noteq> sep) (rev (abs_path (cs @ [n]))) = sep # rev (abs_path cs)"
    unfolding rv by (subst dropWhile_append2) (use ns in simp_all)
  then show ?thesis
    using Clean_dir_path [OF assms(1)] by (simp add: Dir_def dir_path_def)
qed

lemma os_OpenFile_ok:
  assumes "fault w SysOpenFile (resolve w p) = None" "\<not> below_file w (resolve w p)"
    "resolve w p \<notin> dirs w" "Dir (resolve w p) \<in> dirs w"
  shows "fst (snd (os_OpenFile p w)) = None"
  using assms by (simp add: os_OpenFile_def Let_def)

lemma os_MkdirAll_ok:
  assumes "fault w SysMkdirAll (resolve w p) = None"
    "\<not> list_ex (\<lambda>d. files w d \<noteq> None) (dirs_upto (resolve w p))"
  obtains w1 where "os_MkdirAll p w = (None, w1)" "cwd w1 = cwd w" "files w1 = files w"
    "fault w1 = fault w" "dirs w1 = dirs w \<union> set (dirs_upto (resolve w p))"
  using assms by (simp add: os_MkdirAll_def Let_def log_call_def)

lemma openFile_permissive:
  assumes f: "file_ptr f = None" "loc_path (location f) = dir_path cs" "list_all plain cs"
      "plain (name f)"
    and env: "fault w SysMkdirAll (resolve w (loc_path (location f))) = None"
      "fault w SysOpenFile (resolve w (Path f)) = None"
      "\<not> list_ex (\<lambda>d. files w d \<noteq> None) (dirs_upto (resolve w (loc_path (location f))))"
      "resolve w (Path f) \<notin> dirs w"
  shows "fst (snd (openFile f w)) = None"
proof -
  have "Path f = dir_path cs @ name f"
    using f by (simp add: Path_def Join_dir_path_plain)
  then have pf: "Path f = abs_path (cs @ [name f])"
    by (simp add: dir_path_def abs_path_def)
  have rl: "resolve w (loc_path (location f)) = sep # join_sep cs"
    using f(2,3) IsAbs_dir_path [of cs "[]"] by (simp add: resolve_def abs_in_def Clean_dir_path)
  have ab: "IsAbs (abs_path (cs @ [name f]))"
    by (cases cs) (simp_all add: abs_path_def IsAbs_def)
  have rp: "resolve w (Path f) = abs_path (cs @ [name f])"
    using f(3,4) ab by (simp add: pf resolve_def abs_in_def Clean_abs_path)
  from os_MkdirAll_ok [OF env(1,3)] obtain w1 where mk: "os_MkdirAll (loc_path (location f)) w = (None, w1)"
    and w1: "cwd w1 = cwd w" "files w1 = files w" "fault w1 = fault w"
      "dirs w1 = dirs w \<union> set (dirs_upto (resolve w (loc_path (location f))))"
    by blast
  have r1: "resolve w1 (Path f) = abs_path (cs @ [name f])"
    using rp w1(1) by (simp add: resolve_def)
  have a1: "fault w1 SysOpenFile (resolve w1 (Path f)) = None"
    using env(2) by (simp add: r1 rp w1)
  have a2: "\<not> below_file w1 (resolve w1 (Path f))"
    using env(3) f(3,4) by (simp add: r1 below_file_def dirs_upto_file rl w1)
  have a3: "resolve w1 (Path f) \<notin> dirs w1"
    using env(4) abs_path_not_dir [OF f(3,4)] by (simp add: r1 rp rl w1)
  have a4: "Dir (resolve w1 (Path f)) \<in> dirs w1"
    using inits_self [of cs] f(3) by (simp add: r1 Dir_abs_path [OF f(3,4)] w1 rl dirs_upto_dir)
  from os_OpenFile_ok [OF a1 a2 a3 a4] mk f(1) show ?thesis
    by (auto simp: openFile_def split: prod.splits)
qed


section \<open>The bytes a copy writes\<close>

lemma copy_log_refl [simp]: "copy_log w w p []"
  by (simp add: copy_log_def written_def)


lemma copy_log_call:
  "is_copy_call e \<Longrightarrow> copy_log w (log_call e w) p (payload p e)"
  by (simp add: copy_log_def log_call_def written_def)

lemma copy_log_same_trace:
  "trace w2 = trace w1 \<Longrightarrow> copy_log w w1 p a \<Longrightarrow> copy_log w w2 p a"
  by (simp add: copy_log_def)

















section \<open>Close\<close>

text \<open>
  Claim C5. Close on a File that never opened a handle is a no-op that returns nil: the
  File and the world, its call log included, are unchanged. Close is idempotent: after a
  Close that returned nil the handle slot is empty, and a second Close returns nil and
  again changes nothing, so the underlying file is not closed a second time.
\<close>

theorem Close_idempotent:
  "(file_ptr f = None \<longrightarrow> Close f w = (None, f, w)) \<and>
   (Close f w = (None, f1, w1) \<longrightarrow> file_ptr f1 = None \<and> Close f1 w1 = (None, f1, w1))"
  by (auto simp: Close_def file_Close_def Let_def split: option.splits if_splits)

theorem Close_idempotent_witness:
  "file_ptr f0 = None \<and> Close f0 w0 = (None, f0, w0) \<and>
   Close (f0\<lparr>file_ptr := Some h0\<rparr>) w0 = (None, f0, log_call (EvClose ''/a/x.txt'') w0) \<and>
   Close f0 (log_call (EvClose ''/a/x.txt'') w0) = (None, f0, log_call (EvClose ''/a/x.txt'') w0)"
  using Close_idempotent [of f0 w0 f0 w0]
    Close_idempotent [of "f0\<lparr>file_ptr := Some h0\<rparr>" w0 f0 "log_call (EvClose ''/a/x.txt'') w0"]
  by (simp add: Close_def file_Close_def f0_def h0_def w0_def log_call_def)






section \<open>Move: copy, then delete\<close>

text \<open>
  Claim C1. MoveToFile and MoveToLocation are the copy followed by Delete of the source.
  When the copy fails, the move returns the copy's error unchanged and leaves the File
  and the world exactly as the failed copy left them, so Delete is not invoked: the copy
  itself never calls \<^verbatim>\<open>os.Remove\<close> and removes nothing, and a source object that
  existed before still exists afterwards.
\<close>

theorem Move_stops_when_copy_fails:
  "(copyWithName f (Name target) (location target) w = Some (Inl err, f1, w1) \<longrightarrow>
      MoveToFile f target w = Some (Some err, f1, w1)) \<and>
   (copyWithName f (name f) loc w = Some (Inl err, f1, w1) \<longrightarrow>
      MoveToLocation f loc w = Some (Receiver, Some err, f1, w1)) \<and>
   (copyWithName f nm loc w = Some (Inl err, f1, w1) \<longrightarrow>
      no_removal w w1 \<and>
      (files w (resolve w (Path f)) \<noteq> None \<longrightarrow> files w1 (resolve w1 (Path f1)) \<noteq> None))"
proof (intro conjI impI)
  assume "copyWithName f (Name target) (location target) w = Some (Inl err, f1, w1)"
  then show "MoveToFile f target w = Some (Some err, f1, w1)"
    by (simp add: MoveToFile_def)
next
  assume "copyWithName f (name f) loc w = Some (Inl err, f1, w1)"
  then show "MoveToLocation f loc w = Some (Receiver, Some err, f1, w1)"
    by (simp add: MoveToLocation_def)
next
  assume c: "copyWithName f nm loc w = Some (Inl err, f1, w1)"
  from copyWithName_frame [OF c] show "no_removal w w1" by simp
next
  assume c: "copyWithName f nm loc w = Some (Inl err, f1, w1)"
    and ex: "files w (resolve w (Path f)) \<noteq> None"
  from copyWithName_frame [OF c] have nr: "no_removal w w1" and id: "same_id f f1"
    by simp_all
  from nr have "dom (files w) \<subseteq> dom (files w1)" and "cwd w1 = cwd w"
    by (simp_all add: no_removal_def)
  with ex id show "files w1 (resolve w1 (Path f1)) \<noteq> None"
    by (auto simp: resolve_def same_id_Path)
qed

theorem Move_stops_when_copy_fails_witness:
  "copyWithName f0 ''x.txt'' lb wm =
     Some (Inl (PathError SysMkdirAll ''/b/'' EACCES),
           f0\<lparr>file_ptr := Some (h0\<lparr>h_pos := 2\<rparr>)\<rparr>,
           wm\<lparr>trace := [EvStat ''/a/x.txt'', EvStat ''/a/x.txt'', EvMkdirAll ''/a/'',
                EvOpenFile ''/a/x.txt'', EvRead ''/a/x.txt'' 32768, EvMkdirAll ''/b/'']\<rparr>) \<and>
   MoveToFile f0 t0 wm =
     Some (Some (PathError SysMkdirAll ''/b/'' EACCES),
           f0\<lparr>file_ptr := Some (h0\<lparr>h_pos := 2\<rparr>)\<rparr>,
           wm\<lparr>trace := [EvStat ''/a/x.txt'', EvStat ''/a/x.txt'', EvMkdirAll ''/a/'',
                EvOpenFile ''/a/x.txt'', EvRead ''/a/x.txt'' 32768, EvMkdirAll ''/b/'']\<rparr>) \<and>
   MoveToLocation f0 lb wm =
     Some (Receiver, Some (PathError SysMkdirAll ''/b/'' EACCES),
           f0\<lparr>file_ptr := Some (h0\<lparr>h_pos := 2\<rparr>)\<rparr>,
           wm\<lparr>trace := [EvStat ''/a/x.txt'', EvStat ''/a/x.txt'', EvMkdirAll ''/a/'',
                EvOpenFile ''/a/x.txt'', EvRead ''/a/x.txt'' 32768, EvMkdirAll ''/b/'']\<rparr>) \<and>
   files wm (resolve wm (Path f0)) = Some ''hi'' \<and>
   files wm ''/a/x.txt'' = Some ''hi''"
proof -
  let ?E = "PathError SysMkdirAll ''/b/'' EACCES"
  let ?F = "f0\<lparr>file_ptr := Some (h0\<lparr>h_pos := 2\<rparr>)\<rparr>"
  let ?W = "wm\<lparr>trace := [EvStat ''/a/x.txt'', EvStat ''/a/x.txt'', EvMkdirAll ''/a/'',
                EvOpenFile ''/a/x.txt'', EvRead ''/a/x.txt'' 32768, EvMkdirAll ''/b/'']\<rparr>"
  have c: "copyWithName f0 ''x.txt'' lb wm = Some (Inl ?E, ?F, ?W)"
    by (simp add: path_eval os_eval file_eval ex_eval)
  have n: "Name t0 = ''x.txt''" "location t0 = lb" "name f0 = ''x.txt''"
    by (simp_all add: Name_def t0_def f0_def)
  have s: "files wm (resolve wm (Path f0)) = Some ''hi''" "files wm ''/a/x.txt'' = Some ''hi''"
    by (simp_all add: path_eval ex_eval)
  from Move_stops_when_copy_fails [of f0 t0 wm ?E ?F ?W lb "''x.txt''"] c n s
  show ?thesis by simp
qed


text \<open>
  Claim C9. When the copy and the Delete of the source both succeed, MoveToLocation
  returns the receiver itself, with its location field set to the target location; the
  name is the source's name and the handle slot is empty. No other File is returned.
\<close>

theorem MoveToLocation_reassigns:
  "copyWithName f (name f) loc w = Some (Inr nf, f1, w1) \<Longrightarrow>
   Delete f1 w1 = (None, f2, w2) \<Longrightarrow>
     MoveToLocation f loc w = Some (Receiver, None, f2\<lparr>location := loc\<rparr>, w2) \<and>
     location (f2\<lparr>location := loc\<rparr>) = loc \<and>
     name (f2\<lparr>location := loc\<rparr>) = name f \<and>
     file_ptr (f2\<lparr>location := loc\<rparr>) = None"
proof -
  assume c: "copyWithName f (name f) loc w = Some (Inr nf, f1, w1)"
    and d: "Delete f1 w1 = (None, f2, w2)"
  from copyWithName_frame [OF c] have "name f1 = name f"
    by (simp add: same_id_def)
  moreover from d have "name f2 = name f1" "file_ptr f2 = None"
    by (auto simp: Delete_def split: prod.splits option.splits)
  ultimately show ?thesis
    using c d by (simp add: MoveToLocation_def)
qed

theorem MoveToLocation_reassigns_witness:
  "copyWithName f0 (name f0) lb w0 =
     Some (Inr t0, f0,
           w0\<lparr>files := (files w0)(''/b/x.txt'' \<mapsto> ''hi''), dirs := {''/'', ''/b'', ''/'', ''/a''},
              trace := [EvStat ''/a/x.txt'', EvStat ''/a/x.txt'', EvMkdirAll ''/a/'',
                EvOpenFile ''/a/x.txt'', EvRead ''/a/x.txt'' 32768, EvMkdirAll ''/b/'',
                EvOpenFile ''/b/x.txt'', EvWrite ''/b/x.txt'' ''hi'', EvStat ''/a/x.txt'',
                EvRead ''/a/x.txt'' 32768, EvClose ''/a/x.txt'', EvClose ''/b/x.txt'']\<rparr>) \<and>
   map_option (\<lambda>(r, e, f, w). (r, e, f, trace w, files w ''/a/x.txt'', files w ''/b/x.txt''))
     (MoveToLocation f0 lb w0) =
     Some (Receiver, None, f0\<lparr>location := lb\<rparr>,
           [EvStat ''/a/x.txt'', EvStat ''/a/x.txt'', EvMkdirAll ''/a/'',
            EvOpenFile ''/a/x.txt'', EvRead ''/a/x.txt'' 32768, EvMkdirAll ''/b/'',
            EvOpenFile ''/b/x.txt'', EvWrite ''/b/x.txt'' ''hi'', EvStat ''/a/x.txt'',
            EvRead ''/a/x.txt'' 32768, EvClose ''/a/x.txt'', EvClose ''/b/x.txt'',
            EvRemove ''/a/x.txt''], None, Some ''hi'')"
proof -
  let ?W = "w0\<lparr>files := (files w0)(''/b/x.txt'' \<mapsto> ''hi''), dirs := {''/'', ''/b'', ''/'', ''/a''},
              trace := [EvStat ''/a/x.txt'', EvStat ''/a/x.txt'', EvMkdirAll ''/a/'',
                EvOpenFile ''/a/x.txt'', EvRead ''/a/x.txt'' 32768, EvMkdirAll ''/b/'',
                EvOpenFile ''/b/x.txt'', EvWrite ''/b/x.txt'' ''hi'', EvStat ''/a/x.txt'',
                EvRead ''/a/x.txt'' 32768, EvClose ''/a/x.txt'', EvClose ''/b/x.txt'']\<rparr>"
  let ?W2 = "?W\<lparr>files := (files ?W)(''/a/x.txt'' := None), trace := trace ?W @ [EvRemove ''/a/x.txt'']\<rparr>"
  have c: "copyWithName f0 (name f0) lb w0 = Some (Inr t0, f0, ?W)"
    by (simp add: path_eval os_eval file_eval ex_eval)
  have d: "Delete f0 ?W = (None, f0, ?W2)"
    by (simp add: path_eval os_eval file_eval ex_eval)
  from MoveToLocation_reassigns [OF c d] c
  show ?thesis by (simp add: w0_def)
qed


section \<open>Exists\<close>

text \<open>
  Claim C2, as the code has it. The claim says that for every File whose object does
  not exist Exists returns \<^verbatim>\<open>(false, nil)\<close>. Exists translates only the errors that
  \<^verbatim>\<open>os.IsNotExist\<close> accepts. The File of \<^verbatim>\<open>/a/x.txt/inner\<close>, whose path leads
  through the regular file \<^verbatim>\<open>/a/x.txt\<close>, has no object, the probe answers ENOTDIR,
  and Exists returns that error.
\<close>

theorem Exists_below_file_counterexample:
  "newFile w0 ''/a/x.txt/inner'' = Inr i0 \<and>
   files w0 (resolve w0 (Path i0)) = None \<and> resolve w0 (Path i0) \<notin> dirs w0 \<and>
   Exists i0 w0 =
     (False, Some (PathError SysStat ''/a/x.txt/inner'' ENOTDIR),
      log_call (EvStat ''/a/x.txt/inner'') w0)"
  by (simp add: path_eval os_eval file_eval ex_eval)

text \<open>
  Claim C2, amended. Exists probes the object with \<^verbatim>\<open>os.Stat\<close>. A not-found answer
  becomes \<^verbatim>\<open>(false, nil)\<close>, never an error; any other failure of the probe is returned
  as \<^verbatim>\<open>(false, err)\<close>. In terms of the disk: when there is neither a file nor a
  directory at the path, the path does not lead through a regular file and the probe
  does not fail otherwise, the result is \<^verbatim>\<open>(false, nil)\<close>; when the probe fails for a
  reason other than ENOENT, that path error is the result; and when the path leads
  through a regular file, the result is the path error ENOTDIR.
\<close>

theorem Exists_not_found:
  "(os_Stat (Path f) w = (Inl err, w1) \<and> IsNotExist err \<longrightarrow> Exists f w = (False, None, w1)) \<and>
   (os_Stat (Path f) w = (Inl err, w1) \<and> \<not> IsNotExist err \<longrightarrow>
      Exists f w = (False, Some err, w1)) \<and>
   (files w (resolve w (Path f)) = None \<and> resolve w (Path f) \<notin> dirs w \<and>
      \<not> below_file w (resolve w (Path f)) \<and>
      fault w SysStat (resolve w (Path f)) = None \<longrightarrow>
      Exists f w = (False, None, log_call (EvStat (Path f)) w)) \<and>
   (fault w SysStat (resolve w (Path f)) = Some e \<and> e \<noteq> ENOENT \<longrightarrow>
      Exists f w = (False, Some (PathError SysStat (Path f) e), log_call (EvStat (Path f)) w)) \<and>
   (below_file w (resolve w (Path f)) \<and> fault w SysStat (resolve w (Path f)) = None \<longrightarrow>
      Exists f w =
        (False, Some (PathError SysStat (Path f) ENOTDIR), log_call (EvStat (Path f)) w))"
  by (simp add: Exists_def os_Stat_def Let_def split: option.splits)

theorem Exists_not_found_witness:
  "os_Stat (Path n0) w0 =
     (Inl (PathError SysStat ''/a/nope'' ENOENT), log_call (EvStat ''/a/nope'') w0) \<and>
   IsNotExist (PathError SysStat ''/a/nope'' ENOENT) \<and>
   files w0 (resolve w0 (Path n0)) = None \<and> resolve w0 (Path n0) \<notin> dirs w0 \<and>
   \<not> below_file w0 (resolve w0 (Path n0)) \<and>
   fault w0 SysStat (resolve w0 (Path n0)) = None \<and>
   Exists n0 w0 = (False, None, log_call (EvStat ''/a/nope'') w0) \<and>
   os_Stat (Path f0) ws =
     (Inl (PathError SysStat ''/a/x.txt'' EACCES), log_call (EvStat ''/a/x.txt'') ws) \<and>
   \<not> IsNotExist (PathError SysStat ''/a/x.txt'' EACCES) \<and>
   fault ws SysStat (resolve ws (Path f0)) = Some EACCES \<and>
   Exists f0 ws =
     (False, Some (PathError SysStat ''/a/x.txt'' EACCES), log_call (EvStat ''/a/x.txt'') ws) \<and>
   below_file w0 (resolve w0 (Path i0)) \<and> fault w0 SysStat (resolve w0 (Path i0)) = None \<and>
   Exists i0 w0 =
     (False, Some (PathError SysStat ''/a/x.txt/inner'' ENOTDIR),
      log_call (EvStat ''/a/x.txt/inner'') w0)"
proof -
  have p: "Path n0 = ''/a/nope''" "Path f0 = ''/a/x.txt''" "Path i0 = ''/a/x.txt/inner''"
    by (simp_all add: path_eval ex_eval)
  have a: "os_Stat (Path n0) w0 =
      (Inl (PathError SysStat ''/a/nope'' ENOENT), log_call (EvStat ''/a/nope'') w0)"
    "files w0 (resolve w0 (Path n0)) = None" "resolve w0 (Path n0) \<notin> dirs w0"
    "\<not> below_file w0 (resolve w0 (Path n0))"
    "fault w0 SysStat (resolve w0 (Path n0)) = None"
    unfolding p by (simp_all add: path_eval os_eval ex_eval)
  have b: "os_Stat (Path f0) ws =
      (Inl (PathError SysStat ''/a/x.txt'' EACCES), log_call (EvStat ''/a/x.txt'') ws)"
    "fault ws SysStat (resolve ws (Path f0)) = Some EACCES"
    unfolding p by (simp_all add: path_eval os_eval ex_eval)
  have c: "below_file w0 (resolve w0 (Path i0))" "fault w0 SysStat (resolve w0 (Path i0)) = None"
    unfolding p by (simp_all add: path_eval os_eval ex_eval)
  from Exists_not_found [of n0 w0 "PathError SysStat ''/a/nope'' ENOENT"
      "log_call (EvStat ''/a/nope'') w0" EACCES]
    Exists_not_found [of f0 ws "PathError SysStat ''/a/x.txt'' EACCES"
      "log_call (EvStat ''/a/x.txt'') ws" EACCES]
    Exists_not_found [of i0 w0 "PathError SysStat ''/a/x.txt/inner'' ENOTDIR"
      "log_call (EvStat ''/a/x.txt/inner'') w0" EACCES] a b c p
  show ?thesis by simp
qed


section \<open>Delete\<close>

text \<open>
  Claim C8. Delete issues \<^verbatim>\<open>os.Remove\<close> on the File's path (the one call it adds to
  the log). On success the handle slot is cleared, and a later Read has to resolve the
  object again and reports an error; on failure the handle held is left as it is. Name
  and location are untouched.
\<close>

theorem Delete_invalidates_handle:
  "Delete f w = (err, f1, w1) \<Longrightarrow>
     trace w1 = trace w @ [EvRemove (Path f)] \<and>
     name f1 = name f \<and> location f1 = location f \<and>
     (err = None \<longrightarrow> file_ptr f1 = None \<and> (\<forall>n. fst (snd (Read f1 n w1)) \<noteq> None)) \<and>
     (err \<noteq> None \<longrightarrow> file_ptr f1 = file_ptr f)"
  using Delete_then_Read_fails [of f w f1 w1]
  by (auto simp: Delete_def os_Remove_def Let_def log_call_def split: option.splits if_splits prod.splits)

theorem Delete_invalidates_handle_witness:
  "Delete (f0\<lparr>file_ptr := Some h0\<rparr>) w0 =
     (None, f0, w0\<lparr>files := (files w0)(''/a/x.txt'' := None), trace := [EvRemove ''/a/x.txt'']\<rparr>) \<and>
   file_ptr f0 = None \<and>
   fst (snd (Read f0 5 (w0\<lparr>files := (files w0)(''/a/x.txt'' := None),
                             trace := [EvRemove ''/a/x.txt'']\<rparr>))) \<noteq> None \<and>
   Delete (f0\<lparr>file_ptr := Some h0\<rparr>) wr =
     (Some (PathError SysRemove ''/a/x.txt'' EACCES), f0\<lparr>file_ptr := Some h0\<rparr>,
      log_call (EvRemove ''/a/x.txt'') wr) \<and>
   file_ptr (f0\<lparr>file_ptr := Some h0\<rparr>) = Some h0"
proof -
  let ?W = "w0\<lparr>files := (files w0)(''/a/x.txt'' := None), trace := [EvRemove ''/a/x.txt'']\<rparr>"
  let ?E = "PathError SysRemove ''/a/x.txt'' EACCES"
  have a: "Delete (f0\<lparr>file_ptr := Some h0\<rparr>) w0 = (None, f0, ?W)"
    by (simp add: path_eval os_eval file_eval ex_eval)
  have b: "Delete (f0\<lparr>file_ptr := Some h0\<rparr>) wr =
      (Some ?E, f0\<lparr>file_ptr := Some h0\<rparr>, log_call (EvRemove ''/a/x.txt'') wr)"
    by (simp add: path_eval os_eval file_eval ex_eval)
  from Delete_invalidates_handle [OF a] have r: "fst (snd (Read f0 5 ?W)) \<noteq> None"
    by blast
  from Delete_invalidates_handle [OF b]
  have k: "file_ptr (f0\<lparr>file_ptr := Some h0\<rparr>) = file_ptr (f0\<lparr>file_ptr := Some h0\<rparr>)"
    by blast
  from a b r k show ?thesis by (simp add: f0_def)
qed


section \<open>Read, Write and Seek on an object that does not exist\<close>

text \<open>
  Claim C10, as the code has it. The claim says that Write and Seek create the file on
  their first call whenever the object does not exist. Both open the file through
  \<^verbatim>\<open>openFile\<close> and return its error: for the File of \<^verbatim>\<open>/a/x.txt/inner\<close>, below the
  regular file \<^verbatim>\<open>/a/x.txt\<close>, \<^verbatim>\<open>os.MkdirAll\<close> fails, the first Write and the first
  Seek return that error, and no file is created.
\<close>

theorem Write_Seek_below_file_create_nothing_counterexample:
  "file_ptr i0 = None \<and> files w0 (resolve w0 (Path i0)) = None \<and>
   resolve w0 (Path i0) \<notin> dirs w0 \<and>
   Write i0 ''q'' w0 =
     (0, Some (PathError SysMkdirAll ''/a/x.txt/'' ENOTDIR), i0,
      log_call (EvMkdirAll ''/a/x.txt/'') w0) \<and>
   Seek i0 0 0 w0 =
     (0, Some (PathError SysMkdirAll ''/a/x.txt/'' ENOTDIR), i0,
      log_call (EvMkdirAll ''/a/x.txt/'') w0) \<and>
   files (log_call (EvMkdirAll ''/a/x.txt/'') w0) = files w0 \<and>
   dirs (log_call (EvMkdirAll ''/a/x.txt/'') w0) = dirs w0"
  by (simp add: path_eval os_eval file_eval ex_eval)

text \<open>
  Claim C10, amended. On the local disk Read and Write/Seek differ on an object that does
  not exist. Read returns an error, reads nothing and creates nothing: files, directories
  and the File are as before. The first Write or Seek of a File (no handle held) opens
  the file before it writes or seeks. When that \<^verbatim>\<open>openFile\<close> fails
  (\<^verbatim>\<open>os.MkdirAll\<close> of the location's path or \<^verbatim>\<open>os.OpenFile\<close> of the path), the
  call returns its error and no file is created. When it succeeds, the file and every
  directory on the way to the location's path exist afterwards, whether or not the write
  or the seek itself succeeds; after a Write that returned nil the file holds the written
  bytes, and after a Seek it is empty. And \<^verbatim>\<open>openFile\<close> does succeed for a File with an
  ordinary name under a rooted location path of ordinary elements when the environment
  fails neither call, no directory on the way is a regular file, and the path is not a
  directory.
\<close>

theorem Read_fails_Write_Seek_create:
  "(files w (resolve w (Path f)) = None \<and> resolve w (Path f) \<notin> dirs w \<and>
      Read f n w = (d, er, f1, w1) \<longrightarrow>
      d = [] \<and> er \<noteq> None \<and> f1 = f \<and> files w1 = files w \<and> dirs w1 = dirs w) \<and>
   (file_ptr f = None \<and> files w (resolve w (Path f)) = None \<and>
      openFile f w = (h, oe, fo, wo) \<and> Write f p w = (k, ew, f2, w2) \<longrightarrow>
      (oe \<noteq> None \<longrightarrow> ew = oe \<and> files w2 = files w) \<and>
      (oe = None \<longrightarrow>
         files w2 (resolve w (Path f)) \<noteq> None \<and>
         (ew = None \<longrightarrow> files w2 (resolve w (Path f)) = Some p) \<and>
         set (dirs_upto (resolve w (loc_path (location f)))) \<subseteq> dirs w2)) \<and>
   (file_ptr f = None \<and> files w (resolve w (Path f)) = None \<and>
      openFile f w = (h, oe, fo, wo) \<and> Seek f off wh w = (pos, es, f3, w3) \<longrightarrow>
      (oe \<noteq> None \<longrightarrow> es = oe \<and> files w3 = files w) \<and>
      (oe = None \<longrightarrow>
         files w3 (resolve w (Path f)) = Some [] \<and>
         set (dirs_upto (resolve w (loc_path (location f)))) \<subseteq> dirs w3)) \<and>
   (file_ptr f = None \<and> loc_path (location f) = dir_path cs \<and> list_all plain cs \<and>
      plain (name f) \<and>
      fault w SysMkdirAll (resolve w (loc_path (location f))) = None \<and>
      fault w SysOpenFile (resolve w (Path f)) = None \<and>
      \<not> list_ex (\<lambda>d. files w d \<noteq> None) (dirs_upto (resolve w (loc_path (location f)))) \<and>
      resolve w (Path f) \<notin> dirs w \<longrightarrow>
      fst (snd (openFile f w)) = None)"
proof -
  have A: "files w (resolve w (Path f)) = None \<and> resolve w (Path f) \<notin> dirs w \<and>
      Read f n w = (d, er, f1, w1) \<longrightarrow>
      d = [] \<and> er \<noteq> None \<and> f1 = f \<and> files w1 = files w \<and> dirs w1 = dirs w"
    using Read_missing [of w f n d er f1 w1] by blast
  have B: "file_ptr f = None \<and> files w (resolve w (Path f)) = None \<and>
      openFile f w = (h, oe, fo, wo) \<and> Write f p w = (k, ew, f2, w2) \<longrightarrow>
      (oe \<noteq> None \<longrightarrow> ew = oe \<and> files w2 = files w) \<and>
      (oe = None \<longrightarrow>
         files w2 (resolve w (Path f)) \<noteq> None \<and>
         (ew = None \<longrightarrow> files w2 (resolve w (Path f)) = Some p) \<and>
         set (dirs_upto (resolve w (loc_path (location f)))) \<subseteq> dirs w2)"
    using Write_opens_first [of f w h oe fo wo p k ew f2 w2] by auto
  have C: "file_ptr f = None \<and> files w (resolve w (Path f)) = None \<and>
      openFile f w = (h, oe, fo, wo) \<and> Seek f off wh w = (pos, es, f3, w3) \<longrightarrow>
      (oe \<noteq> None \<longrightarrow> es = oe \<and> files w3 = files w) \<and>
      (oe = None \<longrightarrow>
         files w3 (resolve w (Path f)) = Some [] \<and>
         set (dirs_upto (resolve w (loc_path (location f)))) \<subseteq> dirs w3)"
    using Seek_opens_first [of f w h oe fo wo off wh pos es f3 w3] by blast
  have D: "file_ptr f = None \<and> loc_path (location f) = dir_path cs \<and> list_all plain cs \<and>
      plain (name f) \<and>
      fault w SysMkdirAll (resolve w (loc_path (location f))) = None \<and>
      fault w SysOpenFile (resolve w (Path f)) = None \<and>
      \<not> list_ex (\<lambda>d. files w d \<noteq> None) (dirs_upto (resolve w (loc_path (location f)))) \<and>
      resolve w (Path f) \<notin> dirs w \<longrightarrow>
      fst (snd (openFile f w)) = None"
    using openFile_permissive [of f cs w] by blast
  show ?thesis
    by (rule conjI [OF A conjI [OF B conjI [OF C D]]])
qed

theorem Read_fails_Write_Seek_create_witness:
  "files w0 (resolve w0 (Path q0)) = None \<and> resolve w0 (Path q0) \<notin> dirs w0 \<and>
   file_ptr q0 = None \<and>
   Read q0 8 w0 =
     ([], Some (ReadNotExist ''file:///q/r/new.txt''), q0, log_call (EvStat ''/q/r/new.txt'') w0) \<and>
   files (log_call (EvStat ''/q/r/new.txt'') w0) = files w0 \<and>
   fst (snd (openFile q0 w0)) = None \<and>
   Write q0 ''abc'' w0 =
     (3, None, q0\<lparr>file_ptr := Some \<lparr>h_path = ''/q/r/new.txt'', h_pos = 3, h_open = True\<rparr>\<rparr>,
      w0\<lparr>files := (files w0)(''/q/r/new.txt'' \<mapsto> ''abc''),
         dirs := dirs w0 \<union> {''/'', ''/q'', ''/q/r''},
         trace := [EvMkdirAll ''/q/r/'', EvOpenFile ''/q/r/new.txt'',
                   EvWrite ''/q/r/new.txt'' ''abc'']\<rparr>) \<and>
   Seek q0 (- 1) 0 w0 =
     (0, Some (PathError SysSeek ''/q/r/new.txt'' EINVAL),
      q0\<lparr>file_ptr := Some \<lparr>h_path = ''/q/r/new.txt'', h_pos = 0, h_open = True\<rparr>\<rparr>,
      w0\<lparr>files := (files w0)(''/q/r/new.txt'' \<mapsto> []),
         dirs := dirs w0 \<union> {''/'', ''/q'', ''/q/r''},
         trace := [EvMkdirAll ''/q/r/'', EvOpenFile ''/q/r/new.txt'', EvSeek ''/q/r/new.txt'']\<rparr>) \<and>
   set (dirs_upto (resolve w0 (loc_path (location q0)))) = {''/'', ''/q'', ''/q/r''} \<and>
   loc_path (location q0) = dir_path [''q'', ''r''] \<and> list_all plain [''q'', ''r''] \<and>
   plain (name q0) \<and>
   fault w0 SysMkdirAll (resolve w0 (loc_path (location q0))) = None \<and>
   fault w0 SysOpenFile (resolve w0 (Path q0)) = None \<and>
   \<not> list_ex (\<lambda>d. files w0 d \<noteq> None) (dirs_upto (resolve w0 (loc_path (location q0)))) \<and>
   file_ptr i0 = None \<and> files w0 (resolve w0 (Path i0)) = None \<and>
   fst (snd (openFile i0 w0)) = Some (PathError SysMkdirAll ''/a/x.txt/'' ENOTDIR) \<and>
   fst (snd (Write i0 ''q'' w0)) = Some (PathError SysMkdirAll ''/a/x.txt/'' ENOTDIR) \<and>
   files (snd (snd (snd (Write i0 ''q'' w0)))) = files w0 \<and>
   fst (snd (Seek i0 0 0 w0)) = Some (PathError SysMkdirAll ''/a/x.txt/'' ENOTDIR) \<and>
   files (snd (snd (snd (Seek i0 0 0 w0)))) = files w0"
proof -
  let ?R = "log_call (EvStat ''/q/r/new.txt'') w0"
  let ?hq = "\<lparr>h_path = ''/q/r/new.txt'', h_pos = 0, h_open = True\<rparr>"
  let ?FO = "q0\<lparr>file_ptr := Some ?hq\<rparr>"
  let ?WO = "w0\<lparr>files := (files w0)(''/q/r/new.txt'' \<mapsto> []),
         dirs := dirs w0 \<union> {''/'', ''/q'', ''/q/r''},
         trace := [EvMkdirAll ''/q/r/'', EvOpenFile ''/q/r/new.txt'']\<rparr>"
  let ?FW = "q0\<lparr>file_ptr := Some \<lparr>h_path = ''/q/r/new.txt'', h_pos = 3, h_open = True\<rparr>\<rparr>"
  let ?WW = "w0\<lparr>files := (files w0)(''/q/r/new.txt'' \<mapsto> ''abc''),
         dirs := dirs w0 \<union> {''/'', ''/q'', ''/q/r''},
         trace := [EvMkdirAll ''/q/r/'', EvOpenFile ''/q/r/new.txt'',
                   EvWrite ''/q/r/new.txt'' ''abc'']\<rparr>"
  let ?ES = "PathError SysSeek ''/q/r/new.txt'' EINVAL"
  let ?WS = "w0\<lparr>files := (files w0)(''/q/r/new.txt'' \<mapsto> []),
         dirs := dirs w0 \<union> {''/'', ''/q'', ''/q/r''},
         trace := [EvMkdirAll ''/q/r/'', EvOpenFile ''/q/r/new.txt'', EvSeek ''/q/r/new.txt'']\<rparr>"
  let ?EM = "PathError SysMkdirAll ''/a/x.txt/'' ENOTDIR"
  let ?WM = "log_call (EvMkdirAll ''/a/x.txt/'') w0"
  have h: "files w0 (resolve w0 (Path q0)) = None" "resolve w0 (Path q0) \<notin> dirs w0"
    "file_ptr q0 = None"
    by (simp_all add: path_eval ex_eval)
  have r: "Read q0 8 w0 = ([], Some (ReadNotExist ''file:///q/r/new.txt''), q0, ?R)"
    by (simp add: path_eval os_eval file_eval ex_eval)
  have o: "openFile q0 w0 = (Some ?hq, None, ?FO, ?WO)"
    by (simp add: path_eval os_eval file_eval ex_eval insert_commute)
  have wr: "Write q0 ''abc'' w0 = (3, None, ?FW, ?WW)"
    by (simp add: path_eval os_eval file_eval ex_eval insert_commute)
  have sk: "Seek q0 (- 1) 0 w0 = (0, Some ?ES, ?FO, ?WS)"
    by (simp add: path_eval os_eval file_eval ex_eval insert_commute)
  have d: "set (dirs_upto (resolve w0 (loc_path (location q0)))) = {''/'', ''/q'', ''/q/r''}"
    by (simp add: path_eval ex_eval)
  have pm: "loc_path (location q0) = dir_path [''q'', ''r'']" "list_all plain [''q'', ''r'']"
    "plain (name q0)"
    "fault w0 SysMkdirAll (resolve w0 (loc_path (location q0))) = None"
    "fault w0 SysOpenFile (resolve w0 (Path q0)) = None"
    "\<not> list_ex (\<lambda>d. files w0 d \<noteq> None) (dirs_upto (resolve w0 (loc_path (location q0))))"
    by (simp_all add: path_eval ex_eval dir_path_def abs_path_def plain_def)
  have hi: "file_ptr i0 = None" "files w0 (resolve w0 (Path i0)) = None"
    by (simp_all add: path_eval ex_eval)
  have oi: "openFile i0 w0 = (None, Some ?EM, i0, ?WM)"
    by (simp add: path_eval os_eval file_eval ex_eval)
  have wi: "Write i0 ''q'' w0 = (0, Some ?EM, i0, ?WM)"
    by (simp add: path_eval os_eval file_eval ex_eval)
  have si: "Seek i0 0 0 w0 = (0, Some ?EM, i0, ?WM)"
    by (simp add: path_eval os_eval file_eval ex_eval)
  note T1 = Read_fails_Write_Seek_create [where f = q0 and w = w0 and n = 8 and d = "[]"
      and er = "Some (ReadNotExist ''file:///q/r/new.txt'')" and ?f1.0 = q0 and ?w1.0 = ?R
      and h = "Some ?hq" and oe = None and fo = ?FO and wo = ?WO
      and p = "''abc''" and k = 3 and ew = None and ?f2.0 = ?FW and ?w2.0 = ?WW
      and off = "- 1" and wh = 0 and pos = 0 and es = "Some ?ES" and ?f3.0 = ?FO and ?w3.0 = ?WS
      and cs = "[''q'', ''r'']"]
  note T2 = Read_fails_Write_Seek_create [where f = i0 and w = w0
      and h = None and oe = "Some ?EM" and fo = i0 and wo = ?WM
      and p = "''q''" and k = 0 and ew = "Some ?EM" and ?f2.0 = i0 and ?w2.0 = ?WM
      and off = 0 and wh = 0 and pos = 0 and es = "Some ?EM" and ?f3.0 = i0 and ?w3.0 = ?WM]
  from T1 h r o wr sk pm have c1: "fst (snd (openFile q0 w0)) = None"
    "files ?WW (resolve w0 (Path q0)) = Some ''abc''"
    "files ?WS (resolve w0 (Path q0)) = Some []"
    by simp_all
  from T2 hi oi wi si have c2: "files ?WM = files w0"
    by simp
  from c1 c2 h r o wr sk d pm hi oi wi si show ?thesis
    by (simp add: log_call_def)
qed


section \<open>Copying an empty source\<close>

text \<open>
  Claim C4, as the code has it. The claim says that copying an existing source of length
  zero always leaves the destination with size 0. The destination is opened by
  \<^verbatim>\<open>openFile\<close> with \<^verbatim>\<open>O_RDWR|O_CREATE\<close> and no truncation, so a destination
  that already has content keeps it: copying the empty \<^verbatim>\<open>/a/e.txt\<close> onto
  \<^verbatim>\<open>/a/x.txt\<close> succeeds and leaves the two bytes of \<^verbatim>\<open>/a/x.txt\<close> in place.
\<close>

theorem empty_copy_keeps_destination_counterexample:
  "files w0 (resolve w0 (Path e0)) = Some [] \<and>
   copyWithName e0 ''x.txt'' la w0 =
     Some (Inr f0, e0,
           w0\<lparr>files := (files w0)(''/a/x.txt'' \<mapsto> ''hi''),
              trace := [EvStat ''/a/e.txt'', EvMkdirAll ''/a/'', EvOpenFile ''/a/x.txt'',
                          EvWrite ''/a/x.txt'' [], EvClose ''/a/x.txt'']\<rparr>) \<and>
   Path f0 = ''/a/x.txt'' \<and>
   files (w0\<lparr>files := (files w0)(''/a/x.txt'' \<mapsto> ''hi''),
              trace := [EvStat ''/a/e.txt'', EvMkdirAll ''/a/'', EvOpenFile ''/a/x.txt'',
                          EvWrite ''/a/x.txt'' [], EvClose ''/a/x.txt'']\<rparr>) ''/a/x.txt'' = Some ''hi'' \<and>
   fst (Size f0 (w0\<lparr>files := (files w0)(''/a/x.txt'' \<mapsto> ''hi''),
              trace := [EvStat ''/a/e.txt'', EvMkdirAll ''/a/'', EvOpenFile ''/a/x.txt'',
                          EvWrite ''/a/x.txt'' [], EvClose ''/a/x.txt'']\<rparr>)) = 2"
  by (simp add: path_eval os_eval file_eval ex_eval)

text \<open>
  Claim C4, amended. For an existing source of length zero, a copy that succeeds has
  invoked Write on the destination with an empty payload and has closed the destination
  (both calls are in the log, and the File returned holds no handle), so the destination
  object exists afterwards; it has size 0 whenever it did not exist before the copy.
\<close>

theorem empty_copy_materializes:
  assumes src: "files w (resolve w (Path f)) = Some []"
    and ok: "copyWithName f nm loc w = Some (Inr nf, f1, w1)"
  shows "EvWrite (resolve w (Path nf)) [] \<in> set (trace w1) \<and>
         EvClose (resolve w (Path nf)) \<in> set (trace w1) \<and>
         file_ptr nf = None \<and>
         files w1 (resolve w (Path nf)) \<noteq> None \<and>
         (files w (resolve w (Path nf)) = None \<longrightarrow> files w1 (resolve w (Path nf)) = Some [])"
proof -
  from ok obtain d where nfile: "FileSystem_NewFile w (loc_volume loc) (Join (loc_path loc) nm) = Inr d"
    by (auto simp: copyWithName_def split: sum.splits)
  from ok nfile obtain d1 fa wa where tc: "TouchCopy d f w = Some (None, d1, fa, wa)"
    and rest: "(case Close fa wa of
                  (Some fCloseErr, f2, w2) \<Rightarrow> Some (Inl fCloseErr, f2, w2)
                | (None, f2, w2) \<Rightarrow>
                    (case Close d1 w2 of
                       (Some newFileCloseErr, nf2, w3) \<Rightarrow> Some (Inl newFileCloseErr, f2, w3)
                     | (None, nf2, w3) \<Rightarrow> Some (Inr nf2, f2, w3))) = Some (Inr nf, f1, w1)"
    by (auto simp: copyWithName_def split: option.splits prod.splits)
  from rest obtain wb where cf: "Close fa wa = (None, f1, wb)" and cd: "Close d1 wb = (None, nf, w1)"
    by (auto split: prod.splits option.splits)
  have dn: "file_ptr d = None" using nfile by (rule FileSystem_NewFile_no_handle)
  from tc obtain n wz where sz: "Size f w = (n, None, wz)"
    by (auto simp: TouchCopy_def split: prod.splits option.splits)
  from Size_of_file [OF src sz] have n0: "n = 0" and wz: "wz = log_call (EvStat (Path f)) w"
    by simp_all
  from tc sz n0 obtain k where wr: "Write d [] wz = (k, None, d1, wa)" and fa: "fa = f"
    by (auto simp: TouchCopy_def split: prod.splits)
  have rs: "resolve wz = resolve w" "files wz = files w" "trace wz = trace w @ [EvStat (Path f)]"
    by (simp_all add: wz log_call_def resolve_def fun_eq_iff)
  note W = Write_first [OF dn wr, unfolded rs]
  note C1 = Close_effect [OF cf]
  note C2 = Close_effect [OF cd]
  have pd: "Path nf = Path d"
    using Write_frame [OF wr] Close_frame [OF cd] by (auto simp: same_id_def Path_def)
  from W C1 C2 show ?thesis
    unfolding pd by (auto simp: overwrite_def split: option.splits)
qed

theorem empty_copy_materializes_witness:
  "files w0 (resolve w0 (Path e0)) = Some [] \<and>
   copyWithName e0 ''e.txt'' lb w0 =
     Some (Inr (e0\<lparr>location := lb\<rparr>), e0,
           w0\<lparr>files := (files w0)(''/b/e.txt'' \<mapsto> []), dirs := dirs w0 \<union> {''/'', ''/b''},
              trace := [EvStat ''/a/e.txt'', EvMkdirAll ''/b/'', EvOpenFile ''/b/e.txt'',
                        EvWrite ''/b/e.txt'' [], EvClose ''/b/e.txt'']\<rparr>) \<and>
   resolve w0 (Path (e0\<lparr>location := lb\<rparr>)) = ''/b/e.txt'' \<and>
   files w0 ''/b/e.txt'' = None \<and>
   files (w0\<lparr>files := (files w0)(''/b/e.txt'' \<mapsto> []), dirs := dirs w0 \<union> {''/'', ''/b''},
              trace := [EvStat ''/a/e.txt'', EvMkdirAll ''/b/'', EvOpenFile ''/b/e.txt'',
                        EvWrite ''/b/e.txt'' [], EvClose ''/b/e.txt'']\<rparr>) ''/b/e.txt'' = Some []"
proof -
  let ?W = "w0\<lparr>files := (files w0)(''/b/e.txt'' \<mapsto> []), dirs := dirs w0 \<union> {''/'', ''/b''},
              trace := [EvStat ''/a/e.txt'', EvMkdirAll ''/b/'', EvOpenFile ''/b/e.txt'',
                        EvWrite ''/b/e.txt'' [], EvClose ''/b/e.txt'']\<rparr>"
  have s: "files w0 (resolve w0 (Path e0)) = Some []"
    by (simp add: path_eval ex_eval)
  have c: "copyWithName e0 ''e.txt'' lb w0 = Some (Inr (e0\<lparr>location := lb\<rparr>), e0, ?W)"
    by (simp add: path_eval os_eval file_eval ex_eval insert_commute)
  have p: "resolve w0 (Path (e0\<lparr>location := lb\<rparr>)) = ''/b/e.txt''" "files w0 ''/b/e.txt'' = None"
    by (simp_all add: path_eval ex_eval)
  from empty_copy_materializes [OF s c] s c p
  show ?thesis by simp
qed


section \<open>Copy between Files of the same scheme\<close>





section \<open>The path of a File\<close>

text \<open>
  Claim C7, as the code has it. The claim says that for every File the path is the
  location's path followed by the name, and never ends in a separator. \<^verbatim>\<open>Path\<close> is
  \<^verbatim>\<open>filepath.Join\<close> of the two, which cleans its result, and \<^verbatim>\<open>newFile\<close> takes
  the name from \<^verbatim>\<open>filepath.Base\<close> as it comes. For the absolute path
  \<^verbatim>\<open>/a/..\<close>, which does not denote a directory by its form, the File has the name
  \<^verbatim>\<open>..\<close> under the location \<^verbatim>\<open>/\<close>, and its path is \<^verbatim>\<open>/\<close>.
\<close>

theorem Path_of_dotdot_counterexample:
  "FileSystem_NewFile w0 [] ''/a/..'' = Inr d0 \<and> newFile w0 ''/a/..'' = Inr d0 \<and>
   Path d0 = ''/'' \<and> loc_path (location d0) @ Name d0 = ''/..'' \<and>
   Path d0 \<noteq> loc_path (location d0) @ Name d0 \<and> last (Path d0) = sep"
  by (simp add: path_eval os_eval file_eval ex_eval)

text \<open>
  Claim C7, amended. For every File whose location path is a rooted path of ordinary
  elements ending in a separator and whose name is an ordinary element (not empty,
  without a separator, neither \<^verbatim>\<open>.\<close> nor \<^verbatim>\<open>..\<close>), the path is the location's path
  followed by the name; the location's path ends in a separator and has no doubled
  separator, and the File's path does not end in a separator. By \<open>newFile_plain\<close>
  these are the Files that \<^verbatim>\<open>newFile\<close> makes of an absolute path of ordinary
  elements.
\<close>

theorem Path_is_location_plus_name:
  assumes "loc_path (location f) = dir_path cs" "list_all plain cs" "plain (name f)"
  shows "Path f = loc_path (location f) @ Name f \<and>
         last (loc_path (location f)) = sep \<and>
         \<not> doubled_sep (loc_path (location f)) \<and>
         Path f \<noteq> [] \<and> last (Path f) \<noteq> sep"
proof -
  from assms have p: "Path f = dir_path cs @ name f"
    by (simp add: Path_def Join_dir_path_plain)
  from assms(3) have n: "name f \<noteq> []" "last (name f) \<noteq> sep"
    by (auto simp: plain_def dest: last_in_set)
  from p n assms(1) dir_path_no_doubled [OF assms(2)] show ?thesis
    by (simp add: Name_def dir_path_def)
qed

theorem Path_is_location_plus_name_witness:
  "newFile w0 ''/some/path/to/file.txt'' = Inr s0 \<and>
   loc_path (location s0) = dir_path [''some'', ''path'', ''to''] \<and>
   list_all plain [''some'', ''path'', ''to''] \<and> plain (name s0) \<and>
   Path s0 = ''/some/path/to/file.txt'' \<and>
   loc_path (location s0) @ Name s0 = ''/some/path/to/file.txt'' \<and>
   last (loc_path (location s0)) = sep \<and> \<not> doubled_sep (loc_path (location s0)) \<and>
   last (Path s0) \<noteq> sep"
proof -
  have h: "loc_path (location s0) = dir_path [''some'', ''path'', ''to'']"
    "list_all plain [''some'', ''path'', ''to'']" "plain (name s0)"
    by (simp_all add: ex_eval dir_path_def abs_path_def plain_def sep_def)
  have p: "loc_path (location s0) @ Name s0 = ''/some/path/to/file.txt''"
    "newFile w0 ''/some/path/to/file.txt'' = Inr s0"
    by (simp_all add: path_eval os_eval file_eval ex_eval)
  from Path_is_location_plus_name [OF h] p show ?thesis
    using h by (simp add: sep_def)
qed

end
